theory Spec2Isabelle
  imports Complex_Main "HOL-Library.Sublist"
begin

section \<open>Python values\<close>

text \<open>
  The citation manager passes citation records around as plain Python dictionaries whose
  values come from JSON requests.  The values are modelled by the datatype below.  A
  Python \<^verbatim>\<open>str\<close> is an Isabelle string, so its characters are the code points 0 to 255;
  floats and nested dictionaries are left out.  Integers are unbounded, as in Python
  (the interpreter's limit on the number of digits of a conversion is not modelled).
\<close>

datatype pyval =
    PNone
  | PBool bool
  | PInt int
  | PStr string
  | PList "pyval list"

datatype error =
    TypeError
  | AttributeError
  | ValueError
  | RuntimeError
  | FileNotFoundError
  | OverflowError
  | BindError

text \<open>Truth value testing: \<^verbatim>\<open>None\<close>, \<^verbatim>\<open>False\<close>, \<^verbatim>\<open>0\<close>, \<^verbatim>\<open>""\<close> and \<^verbatim>\<open>[]\<close> are false.\<close>

fun truthy :: "pyval \<Rightarrow> bool" where
  "truthy PNone = False"
| "truthy (PBool b) = b"
| "truthy (PInt i) = (i \<noteq> 0)"
| "truthy (PStr s) = (s \<noteq> [])"
| "truthy (PList xs) = (xs \<noteq> [])"

text \<open>\<^verbatim>\<open>a or b\<close> on values.\<close>

definition py_or :: "pyval \<Rightarrow> pyval \<Rightarrow> pyval" where
  "py_or a b = (if truthy a then a else b)"

section \<open>Strings\<close>

text \<open>\<^verbatim>\<open>str.isspace\<close> on one character; also the class \<^verbatim>\<open>\s\<close> of \<^verbatim>\<open>re\<close>.\<close>

definition isspace :: "char \<Rightarrow> bool" where
  "isspace c = (of_char c \<in> {9, 10, 11, 12, 13, 28, 29, 30, 31, 32, 133, 160 :: nat})"

text \<open>The class \<^verbatim>\<open>\d\<close> of \<^verbatim>\<open>re\<close>: below code point 256 the decimal digits are 0 to 9.\<close>

definition isdigit :: "char \<Rightarrow> bool" where
  "isdigit c = (48 \<le> (of_char c :: nat) \<and> (of_char c :: nat) \<le> 57)"

definition strip :: "string \<Rightarrow> string" where
  "strip s = rev (dropWhile isspace (rev (dropWhile isspace s)))"

text \<open>
  \<^verbatim>\<open>str.lower\<close>: the letters A to Z and the upper-case letters of the Latin-1 block
  (0xC0 to 0xDE without the multiplication sign 0xD7) move up by 32.
\<close>

definition lower_char :: "char \<Rightarrow> char" where
  "lower_char c =
     (let n = of_char c :: nat
      in if (65 \<le> n \<and> n \<le> 90) \<or> (192 \<le> n \<and> n \<le> 222 \<and> n \<noteq> 215)
         then char_of (n + 32) else c)"

definition lower :: "string \<Rightarrow> string" where
  "lower s = map lower_char s"

definition is_upper_char :: "char \<Rightarrow> bool" where
  "is_upper_char c =
     (let n = of_char c :: nat
      in (65 \<le> n \<and> n \<le> 90) \<or> (192 \<le> n \<and> n \<le> 222 \<and> n \<noteq> 215))"

definition is_lower_char :: "char \<Rightarrow> bool" where
  "is_lower_char c =
     (let n = of_char c :: nat
      in (97 \<le> n \<and> n \<le> 122) \<or> n = 170 \<or> n = 181 \<or> n = 186 \<or>
         (223 \<le> n \<and> n \<le> 255 \<and> n \<noteq> 247))"

text \<open>\<^verbatim>\<open>str.isupper\<close> and \<^verbatim>\<open>str.islower\<close>: a cased character, and none of the other case.\<close>

definition isupper :: "string \<Rightarrow> bool" where
  "isupper s = (list_ex is_upper_char s \<and> \<not> list_ex is_lower_char s)"

definition islower :: "string \<Rightarrow> bool" where
  "islower s = (list_ex is_lower_char s \<and> \<not> list_ex is_upper_char s)"

definition startswith :: "string \<Rightarrow> string \<Rightarrow> bool" where
  "startswith s p = prefix p s"

text \<open>\<^verbatim>\<open>str.find\<close>: the index of the first occurrence of a substring.\<close>

fun find_sub :: "string \<Rightarrow> string \<Rightarrow> nat option" where
  "find_sub sub [] = (if sub = [] then Some 0 else None)"
| "find_sub sub (c # cs) =
     (if prefix sub (c # cs) then Some 0 else map_option Suc (find_sub sub cs))"

text \<open>\<^verbatim>\<open>sub in s\<close>.\<close>

definition contains :: "string \<Rightarrow> string \<Rightarrow> bool" where
  "contains sub s = (find_sub sub s \<noteq> None)"

text \<open>\<^verbatim>\<open>s.split(sep, 1)\<close>: one or two pieces.\<close>

definition split1 :: "string \<Rightarrow> string \<Rightarrow> string list" where
  "split1 sep s =
     (case find_sub sep s of
        None \<Rightarrow> [s]
      | Some i \<Rightarrow> [take i s, drop (i + length sep) s])"

text \<open>\<^verbatim>\<open>s.replace(old, new, 1)\<close>: the first occurrence only.\<close>

definition replace1 :: "string \<Rightarrow> string \<Rightarrow> string \<Rightarrow> string" where
  "replace1 old new s =
     (case find_sub old s of
        None \<Rightarrow> s
      | Some i \<Rightarrow> take i s @ new @ drop (i + length old) s)"

text \<open>
  \<^verbatim>\<open>s.replace(old, new)\<close> for a non-empty \<^verbatim>\<open>old\<close>: every occurrence, left to right
  and without overlap.  The first argument counts the characters of a match that are
  still to be skipped.
\<close>

fun replace_scan :: "nat \<Rightarrow> string \<Rightarrow> string \<Rightarrow> string \<Rightarrow> string" where
  "replace_scan k old new [] = []"
| "replace_scan (Suc k) old new (c # cs) = replace_scan k old new cs"
| "replace_scan 0 old new (c # cs) =
     (if old \<noteq> [] \<and> prefix old (c # cs)
      then new @ replace_scan (length old - 1) old new cs
      else c # replace_scan 0 old new cs)"

definition replace_all :: "string \<Rightarrow> string \<Rightarrow> string \<Rightarrow> string" where
  "replace_all old new s = replace_scan 0 old new s"

text \<open>\<^verbatim>\<open>sep.join(xs)\<close> on a list of strings.\<close>

fun join :: "string \<Rightarrow> string list \<Rightarrow> string" where
  "join sep [] = []"
| "join sep [x] = x"
| "join sep (x # y # ys) = x @ sep @ join sep (y # ys)"

text \<open>
  \<^verbatim>\<open>re.split\<close> on a one-character class such as \<^verbatim>\<open>[;,]\<close>: every separator ends a
  piece, so a string with n separators gives n + 1 pieces.
\<close>

fun split_scan :: "(char \<Rightarrow> bool) \<Rightarrow> string \<Rightarrow> string \<Rightarrow> string list" where
  "split_scan P cur [] = [rev cur]"
| "split_scan P cur (c # cs) =
     (if P c then rev cur # split_scan P [] cs else split_scan P (c # cur) cs)"

definition re_split_class :: "(char \<Rightarrow> bool) \<Rightarrow> string \<Rightarrow> string list" where
  "re_split_class P s = split_scan P [] s"

text \<open>
  \<^verbatim>\<open>re.split(r"\s+", s)\<close>: a whole run of white space is one separator.  The flag says
  that the scan is inside such a run.
\<close>

fun split_ws_scan :: "bool \<Rightarrow> string \<Rightarrow> string \<Rightarrow> string list" where
  "split_ws_scan inws cur [] = [rev cur]"
| "split_ws_scan inws cur (c # cs) =
     (if isspace c
      then (if inws then split_ws_scan True cur cs else rev cur # split_ws_scan True [] cs)
      else split_ws_scan False (c # cur) cs)"

definition re_split_ws :: "string \<Rightarrow> string list" where
  "re_split_ws s = split_ws_scan False [] s"

section \<open>Conversion to text\<close>

fun show_nat :: "nat \<Rightarrow> string" where
  "show_nat n =
     (if n < 10 then [char_of (48 + n)] else show_nat (n div 10) @ [char_of (48 + n mod 10)])"

definition show_int :: "int \<Rightarrow> string" where
  "show_int i = (if i < 0 then CHR ''-'' # show_nat (nat (- i)) else show_nat (nat i))"

definition hex_digit :: "nat \<Rightarrow> char" where
  "hex_digit n = (if n < 10 then char_of (48 + n) else char_of (87 + n))"

text \<open>
  \<^verbatim>\<open>repr\<close> of a string: the quote is \<^verbatim>\<open>"\<close> when the string holds \<^verbatim>\<open>'\<close> and no
  \<^verbatim>\<open>"\<close>; backslash, the quote, tab, newline and carriage return are escaped, and the
  characters that are not printable are written \<^verbatim>\<open>\xNN\<close>.
\<close>

definition repr_char :: "char \<Rightarrow> char \<Rightarrow> string" where
  "repr_char q c =
     (let n = of_char c :: nat
      in if c = CHR 0x5C then [CHR 0x5C, CHR 0x5C]
         else if c = q then [CHR 0x5C, q]
         else if c = CHR 0x09 then [CHR 0x5C, CHR ''t'']
         else if c = CHR 0x0A then [CHR 0x5C, CHR ''n'']
         else if c = CHR 0x0D then [CHR 0x5C, CHR ''r'']
         else if n < 32 \<or> n = 127 \<or> (128 \<le> n \<and> n \<le> 160) \<or> n = 173
         then [CHR 0x5C, CHR ''x'', hex_digit (n div 16), hex_digit (n mod 16)]
         else [c])"

definition repr_str :: "string \<Rightarrow> string" where
  "repr_str s =
     (let q = (if CHR 0x27 \<in> set s \<and> CHR 0x22 \<notin> set s then CHR 0x22 else CHR 0x27)
      in [q] @ concat (map (repr_char q) s) @ [q])"

fun py_repr :: "pyval \<Rightarrow> string" where
  "py_repr PNone = ''None''"
| "py_repr (PBool b) = (if b then ''True'' else ''False'')"
| "py_repr (PInt i) = show_int i"
| "py_repr (PStr s) = repr_str s"
| "py_repr (PList xs) = ''['' @ join '', '' (map py_repr xs) @ '']''"

text \<open>\<^verbatim>\<open>str(v)\<close>: a string is itself, everything else is its \<^verbatim>\<open>repr\<close>.\<close>

definition py_str :: "pyval \<Rightarrow> string" where
  "py_str v = (case v of PStr s \<Rightarrow> s | _ \<Rightarrow> py_repr v)"

text \<open>
  \<^verbatim>\<open>int(v)\<close>.  For a string: white space around (the characters \<^verbatim>\<open>int\<close> accepts there),
  an optional sign, then decimal digits in groups separated by single underscores.
\<close>

definition int_space :: "char \<Rightarrow> bool" where
  "int_space c = (of_char c \<in> {9, 10, 11, 12, 13, 32, 133, 160 :: nat})"

fun digits_value :: "nat \<Rightarrow> string \<Rightarrow> nat" where
  "digits_value acc [] = acc"
| "digits_value acc (c # cs) =
     (if c = CHR ''_'' then digits_value acc cs
      else digits_value (10 * acc + (of_char c - 48)) cs)"

fun digit_groups_ok :: "string \<Rightarrow> bool" where
  "digit_groups_ok [] = False"
| "digit_groups_ok [c] = isdigit c"
| "digit_groups_ok (c # d # cs) =
     (isdigit c \<and> (if d = CHR ''_'' then digit_groups_ok cs else digit_groups_ok (d # cs)))"

definition parse_int :: "string \<Rightarrow> error + int" where
  "parse_int s =
     (let t = rev (dropWhile int_space (rev (dropWhile int_space s)));
          neg = (t \<noteq> [] \<and> hd t = CHR ''-'');
          body = (if t \<noteq> [] \<and> (hd t = CHR ''-'' \<or> hd t = CHR ''+'') then tl t else t)
      in if digit_groups_ok body
         then Inr (if neg then - int (digits_value 0 body) else int (digits_value 0 body))
         else Inl ValueError)"

definition py_int :: "pyval \<Rightarrow> error + int" where
  "py_int v =
     (case v of
        PInt i \<Rightarrow> Inr i
      | PBool b \<Rightarrow> Inr (if b then 1 else 0)
      | PStr s \<Rightarrow> parse_int s
      | _ \<Rightarrow> Inl TypeError)"

section \<open>Dictionaries\<close>

text \<open>
  A dictionary keeps its keys in insertion order: an association list, read with
  \<^verbatim>\<open>d.get(k)\<close> or \<^verbatim>\<open>d.get(k, default)\<close> and written with \<^verbatim>\<open>d[k] = v\<close>.
\<close>

type_synonym pydict = "(string \<times> pyval) list"

definition get :: "pydict \<Rightarrow> string \<Rightarrow> pyval" where
  "get d k = (case map_of d k of None \<Rightarrow> PNone | Some v \<Rightarrow> v)"

definition get_default :: "pydict \<Rightarrow> string \<Rightarrow> pyval \<Rightarrow> pyval" where
  "get_default d k dflt = (case map_of d k of None \<Rightarrow> dflt | Some v \<Rightarrow> v)"

fun setitem :: "pydict \<Rightarrow> string \<Rightarrow> pyval \<Rightarrow> pydict" where
  "setitem [] k v = [(k, v)]"
| "setitem (p # ps) k v = (if fst p = k then (k, v) # ps else p # setitem ps k v)"

section \<open>engine.py: the normalizer\<close>

text \<open>
  \<^verbatim>\<open>_split_authors\<close>.  The caller hands over \<^verbatim>\<open>authors_field or ""\<close>, which need not be a
  string: \<^verbatim>\<open>re.split\<close> raises \<^verbatim>\<open>TypeError\<close> on anything else that is true.
\<close>

definition is_author_sep :: "char \<Rightarrow> bool" where
  "is_author_sep c = (c = CHR '';'' \<or> c = CHR '','')"

definition split_authors :: "pyval \<Rightarrow> error + string list" where
  "split_authors author_str =
     (if \<not> truthy author_str then Inr []
      else case author_str of
        PStr s \<Rightarrow>
          (let parts = map strip (filter (\<lambda>p. strip p \<noteq> []) (re_split_class is_author_sep s))
           in Inr (if parts \<noteq> [] then parts else [strip s]))
      | _ \<Rightarrow> Inl TypeError)"

text \<open>
  The DOI block of \<^verbatim>\<open>normalize_metadata\<close>: the test for a prefix is made on the
  lower-cased string, the two \<^verbatim>\<open>replace\<close> calls and the \<^verbatim>\<open>split\<close> on the string as it is.
\<close>

definition normalize_doi :: "pyval \<Rightarrow> pyval" where
  "normalize_doi doi =
     (case doi of
        PStr s \<Rightarrow>
          if s \<noteq> [] then
            (let d = strip s;
                 d' = (if startswith (lower d) ''http://doi.org/'' \<or>
                          startswith (lower d) ''https://doi.org/'' \<or>
                          startswith (lower d) ''doi:''
                       then (let d1 = replace1 ''doi:'' [] (replace1 ''DOI:'' [] d)
                             in if contains ''doi.org/'' (lower d1)
                                then last (split1 ''doi.org/'' d1) else d1)
                       else d)
             in PStr (lower (strip d')))
          else doi
      | _ \<Rightarrow> doi)"

text \<open>
  The pages block: \<^verbatim>\<open>re.sub(r"\s*[-...]\s*", "-", p)\<close>.  Of the dashes of the class only
  the ASCII hyphen has a code point below 256.  At each position the pattern matches when
  the white space from there on is followed by a dash; the match takes the white space on
  both sides.
\<close>

function sub_dash :: "string \<Rightarrow> string" where
  "sub_dash [] = []"
| "sub_dash (c # cs) =
     (let rest = dropWhile isspace (c # cs)
      in if rest \<noteq> [] \<and> hd rest = CHR ''-''
         then CHR ''-'' # sub_dash (dropWhile isspace (tl rest))
         else c # sub_dash cs)"
  by pat_completeness auto
termination
proof (relation "measure length")
  show "wf (measure length)" by simp
next
  fix c :: char and cs x
  assume x: "x = dropWhile isspace (c # cs)" and ne: "x \<noteq> [] \<and> hd x = CHR ''-''"
  have "length (dropWhile isspace (tl x)) \<le> length (tl x)"
    by (rule length_dropWhile_le)
  also have "\<dots> < length x" using ne by (cases x) auto
  also have "\<dots> \<le> length (c # cs)" unfolding x by (rule length_dropWhile_le)
  finally show "(dropWhile isspace (tl x), c # cs) \<in> measure length" by simp
next
  fix c :: char and cs :: string
  show "(cs, c # cs) \<in> measure length" by simp
qed

definition normalize_pages :: "pyval \<Rightarrow> pyval" where
  "normalize_pages pages =
     (case pages of
        PStr s \<Rightarrow> if s \<noteq> [] then PStr (sub_dash (strip s)) else pages
      | _ \<Rightarrow> pages)"

text \<open>
  The authors block of \<^verbatim>\<open>normalize_metadata\<close>: \<^verbatim>\<open>author or authors\<close>, kept when it is a
  list and split otherwise.
\<close>

definition normalize_authors :: "pydict \<Rightarrow> error + pyval" where
  "normalize_authors md =
     (let authors_field = py_or (get md ''author'') (get md ''authors'')
      in case authors_field of
           PList xs \<Rightarrow> Inr (PList xs)
         | _ \<Rightarrow> (case split_authors (py_or authors_field (PStr [])) of
                   Inl e \<Rightarrow> Inl e
                 | Inr names \<Rightarrow> Inr (PList (map PStr names))))"

text \<open>
  \<^verbatim>\<open>normalize_metadata\<close>.  The argument is the dictionary \<^verbatim>\<open>metadata or {}\<close>.  The result
  has the twelve keys of the source, in its order.
\<close>

definition normalize_metadata :: "pydict \<Rightarrow> error + pydict" where
  "normalize_metadata md =
     (case normalize_authors md of
        Inl e \<Rightarrow> Inl e
      | Inr authors \<Rightarrow>
          Inr [(''title'', get_default md ''title'' (PStr [])),
               (''authors'', authors),
               (''year'', get md ''year''),
               (''journal'', get md ''journal''),
               (''publisher'', get md ''publisher''),
               (''volume'', get md ''volume''),
               (''issue'', get md ''issue''),
               (''pages'', normalize_pages (get md ''pages'')),
               (''doi'', normalize_doi (get md ''doi'')),
               (''url'', get md ''url''),
               (''raw_text'', get md ''raw_text''),
               (''source_type'', get md ''source_type'')])"

section \<open>engine.py: the merger\<close>

text \<open>\<^verbatim>\<open>merged = dict(base)\<close>, then one pass over \<^verbatim>\<open>extracted.items()\<close>.\<close>

fun merge_loop :: "pydict \<Rightarrow> pydict \<Rightarrow> pydict" where
  "merge_loop merged [] = merged"
| "merge_loop merged ((k, v) # rest) =
     (if \<not> truthy (get merged k) \<and> truthy v
      then merge_loop (setitem merged k v) rest
      else merge_loop merged rest)"

definition merge_metadata :: "pydict \<Rightarrow> pydict \<Rightarrow> pydict" where
  "merge_metadata base extracted = merge_loop base extracted"

section \<open>validators.py: DOI syntax\<close>

text \<open>
  \<^verbatim>\<open>DOI_REGEX\<close>, compiled with \<^verbatim>\<open>re.IGNORECASE\<close>: \<^verbatim>\<open>10.\<close>, four to nine digits, a slash,
  then one or more characters of the class.  The run of digits is followed by the slash,
  so it is the whole run; \<^verbatim>\<open>$\<close> also matches before a newline that ends the string.
\<close>

definition is_ascii_upper :: "char \<Rightarrow> bool" where
  "is_ascii_upper c = (65 \<le> (of_char c :: nat) \<and> (of_char c :: nat) \<le> 90)"

definition is_ascii_letter :: "char \<Rightarrow> bool" where
  "is_ascii_letter c =
     (is_ascii_upper c \<or> (97 \<le> (of_char c :: nat) \<and> (of_char c :: nat) \<le> 122))"

definition doi_char :: "char \<Rightarrow> bool" where
  "doi_char c = (c \<in> set ''-._;()/:'' \<or> isdigit c \<or> is_ascii_letter c)"

text \<open>The part of a string that \<^verbatim>\<open>$\<close> lets a pattern end at: all of it, or all but a final newline.\<close>

definition before_dollar :: "string \<Rightarrow> string" where
  "before_dollar s = (if s \<noteq> [] \<and> last s = CHR 0x0A then butlast s else s)"

definition DOI_REGEX_match :: "string \<Rightarrow> bool" where
  "DOI_REGEX_match s =
     (prefix ''10.'' s \<and>
      (let r = drop 3 s;
           ds = takeWhile isdigit r;
           r' = dropWhile isdigit r
       in 4 \<le> length ds \<and> length ds \<le> 9 \<and> r' \<noteq> [] \<and> hd r' = CHR ''/'' \<and>
          before_dollar (tl r') \<noteq> [] \<and> list_all doi_char (before_dollar (tl r'))))"

definition doi_syntax_is_valid :: "string \<Rightarrow> bool" where
  "doi_syntax_is_valid doi0 =
     (if doi0 = [] then False
      else (let doi = strip doi0;
                doi' = (if startswith (lower doi) ''http://doi.org/'' \<or>
                           startswith (lower doi) ''https://doi.org/''
                        then last (split1 ''doi.org/'' doi) else doi)
            in DOI_REGEX_match doi'))"

section \<open>engine.py: duplicate detection\<close>

text \<open>
  The key of an item: \<^verbatim>\<open>(it.get("doi") or "").lower() or (it.get("title") or "").strip().lower()\<close>.
  A true value that is not a string has no \<^verbatim>\<open>lower\<close> or \<^verbatim>\<open>strip\<close>: \<^verbatim>\<open>AttributeError\<close>.
  The title is looked at only when the DOI gives no key.
\<close>

definition dup_key :: "pydict \<Rightarrow> error + string" where
  "dup_key it =
     (case py_or (get it ''doi'') (PStr []) of
        PStr d \<Rightarrow>
          if lower d \<noteq> [] then Inr (lower d)
          else (case py_or (get it ''title'') (PStr []) of
                  PStr t \<Rightarrow> Inr (lower (strip t))
                | _ \<Rightarrow> Inl AttributeError)
      | _ \<Rightarrow> Inl AttributeError)"

text \<open>The loop of \<^verbatim>\<open>detect_duplicates\<close>, with its two variables \<^verbatim>\<open>seen\<close> and \<^verbatim>\<open>out\<close>.\<close>

fun detect_loop :: "string set \<Rightarrow> pydict list \<Rightarrow> pydict list \<Rightarrow> error + pydict list" where
  "detect_loop seen out [] = Inr out"
| "detect_loop seen out (it # items) =
     (case dup_key it of
        Inl e \<Rightarrow> Inl e
      | Inr key \<Rightarrow>
          if key = [] then detect_loop seen (out @ [it]) items
          else if key \<in> seen then detect_loop seen out items
          else detect_loop (insert key seen) (out @ [it]) items)"

definition detect_duplicates :: "pydict list \<Rightarrow> error + pydict list" where
  "detect_duplicates items = detect_loop {} [] items"

text \<open>
  An item without a key, in the words of the claim: no DOI (no true value under
  \<^verbatim>\<open>doi\<close>) and no title that is non-empty once trimmed.
\<close>

definition keyless :: "pydict \<Rightarrow> bool" where
  "keyless it =
     (\<not> truthy (get it ''doi'') \<and>
      (case get it ''title'' of PStr t \<Rightarrow> strip t = [] | v \<Rightarrow> \<not> truthy v))"

text \<open>A field that holds a string or nothing true, as the data model has it for DOI and title.\<close>

definition str_or_empty :: "pyval \<Rightarrow> bool" where
  "str_or_empty v = (case v of PStr s \<Rightarrow> True | _ \<Rightarrow> \<not> truthy v)"


section \<open>Notions of the specification about the normalizer\<close>

text \<open>
  A value that still starts with one of the prefixes the DOI block looks for.
\<close>

definition has_doi_prefix :: "pyval \<Rightarrow> bool" where
  "has_doi_prefix v =
     (case v of
        PStr s \<Rightarrow> startswith s ''http://doi.org/'' \<or> startswith s ''https://doi.org/'' \<or>
                  startswith s ''doi:''
      | _ \<Rightarrow> False)"

text \<open>
  The segments of a raw author string, split at \<^verbatim>\<open>;\<close> and \<^verbatim>\<open>,\<close>, that are not empty once
  trimmed.
\<close>

definition author_segments :: "string \<Rightarrow> string list" where
  "author_segments s = filter (\<lambda>p. strip p \<noteq> []) (re_split_class is_author_sep s)"

text \<open>The fields that \<^verbatim>\<open>normalize_metadata\<close> reads with a plain \<^verbatim>\<open>md.get(key)\<close>.\<close>

definition passthrough_fields :: "string list" where
  "passthrough_fields =
     [''year'', ''journal'', ''publisher'', ''volume'', ''issue'', ''url'', ''raw_text'',
      ''source_type'']"

text \<open>
  The author fields are well-typed when \<^verbatim>\<open>author or authors\<close> is a list, a string or
  nothing true.
\<close>

definition author_fields_ok :: "pydict \<Rightarrow> bool" where
  "author_fields_ok md =
     (case py_or (get md ''author'') (get md ''authors'') of
        PList xs \<Rightarrow> True
      | PStr s \<Rightarrow> True
      | v \<Rightarrow> \<not> truthy v)"


section \<open>engine.py: the validator\<close>

text \<open>The loop over \<^verbatim>\<open>required_common\<close>.\<close>

definition required_common :: "string list" where
  "required_common = [''title'', ''year'']"

definition missing_required :: "pydict \<Rightarrow> string list" where
  "missing_required item =
     concat (map (\<lambda>f. if \<not> truthy (get item f) then [''Missing required field: '' @ f] else [])
               required_common)"

text \<open>The suggestions that depend on the source type \<^verbatim>\<open>st\<close>.\<close>

definition source_suggestions :: "string \<Rightarrow> pydict \<Rightarrow> string list" where
  "source_suggestions st item =
     (if st \<in> set [''article'', ''journal''] then
        (if \<not> truthy (get item ''journal'') then [''Add 'journal' for journal articles.''] else []) @
        (if \<not> truthy (get item ''authors'') then [''Provide at least one author.''] else [])
      else if st \<in> set [''book''] then
        (if \<not> truthy (get item ''publisher'') then [''Add 'publisher' for books.''] else [])
      else if st \<in> set [''web'', ''website''] then
        (if \<not> truthy (get item ''url'') then [''Provide a URL for web sources.''] else [])
      else [])"

text \<open>The DOI checks: a suggestion when there is no DOI, an error when its syntax is wrong.\<close>

definition doi_errors :: "pydict \<Rightarrow> string list" where
  "doi_errors item =
     (if \<not> truthy (get item ''doi'') then []
      else (let doi_val = strip (py_str (py_or (get item ''doi'') (PStr [])))
            in if \<not> doi_syntax_is_valid doi_val then [''Invalid DOI syntax.''] else []))"

definition doi_suggestions :: "pydict \<Rightarrow> string list" where
  "doi_suggestions item =
     (if \<not> truthy (get item ''doi'') then [''Consider adding DOI if available.''] else [])"

text \<open>
  The URL scheme check, \<^verbatim>\<open>re.match(r"^https?://", url, re.IGNORECASE)\<close>: among the code
  points below 256 only the ASCII letters match the letters of the pattern, whatever
  their case.
\<close>

definition url_scheme_match :: "string \<Rightarrow> bool" where
  "url_scheme_match url =
     (startswith (lower url) ''http://'' \<or> startswith (lower url) ''https://'')"

definition url_errors :: "pydict \<Rightarrow> string list" where
  "url_errors item =
     (if truthy (get item ''url'') then
        (let url = strip (py_str (py_or (get item ''url'') (PStr [])))
         in if \<not> url_scheme_match url then [''URL must start with http:// or https://'']
            else [])
      else [])"

text \<open>
  \<^verbatim>\<open>title = (item.get("title") or "").strip()\<close>: a true value that is not a string has no
  \<^verbatim>\<open>strip\<close>.
\<close>

definition title_text :: "pydict \<Rightarrow> error + string" where
  "title_text item =
     (case py_or (get item ''title'') (PStr []) of
        PStr s \<Rightarrow> Inr (strip s)
      | _ \<Rightarrow> Inl AttributeError)"

definition title_suggestions :: "string \<Rightarrow> string list" where
  "title_suggestions title =
     (if title \<noteq> [] then
        (if isupper title then [''Title appears to be ALL CAPS; adjust capitalization.'']
         else if islower title
         then [''Title appears to be all lowercase; adjust capitalization.'']
         else [])
      else [])"

text \<open>
  The year check.  The en dash of the message has a code point above 255 and is written
  here as its three UTF-8 bytes.
\<close>

definition en_dash :: string where
  "en_dash = [CHR 0xE2, CHR 0x80, CHR 0x93]"

definition year_errors :: "pydict \<Rightarrow> string list" where
  "year_errors item =
     (if truthy (get item ''year'') then
        (case py_int (get item ''year'') of
           Inr y \<Rightarrow>
             if y < 1500 \<or> y > 2100
             then [''Year looks out of plausible range (1500'' @ en_dash @ ''2100).'']
             else []
         | Inl e \<Rightarrow> [''Year must be numeric.''])
      else [])"

text \<open>\<^verbatim>\<open>re.match(r"^\d+$", s)\<close>.\<close>

definition digits_match :: "string \<Rightarrow> bool" where
  "digits_match s = (before_dollar s \<noteq> [] \<and> list_all isdigit (before_dollar s))"

text \<open>
  The pages pattern \<^verbatim>\<open>^(?:\d+|[A-Za-z]?\d+\s*[-...]\s*[A-Za-z]?\d+)$\<close>, the dash being the
  ASCII hyphen: digits alone, or an optional letter, digits, a dash with optional white
  space around it, an optional letter, digits.
\<close>

definition pages_range_match :: "string \<Rightarrow> bool" where
  "pages_range_match s =
     (let s1 = (if s \<noteq> [] \<and> is_ascii_letter (hd s) then tl s else s);
          s2 = dropWhile isspace (dropWhile isdigit s1)
      in takeWhile isdigit s1 \<noteq> [] \<and> s2 \<noteq> [] \<and> hd s2 = CHR ''-'' \<and>
         (let s3 = dropWhile isspace (tl s2);
              s4 = (if s3 \<noteq> [] \<and> is_ascii_letter (hd s3) then tl s3 else s3)
          in digits_match s4))"

definition pages_match :: "string \<Rightarrow> bool" where
  "pages_match s = (digits_match s \<or> pages_range_match s)"

definition number_suggestions :: "pydict \<Rightarrow> string list" where
  "number_suggestions item =
     (if truthy (get item ''volume'') \<and> \<not> digits_match (py_str (get item ''volume''))
      then [''Volume should be numeric.''] else []) @
     (if truthy (get item ''issue'') \<and> \<not> digits_match (py_str (get item ''issue''))
      then [''Issue should be numeric.''] else []) @
     (if truthy (get item ''pages'') then
        (let pages_str = strip (py_str (get item ''pages''))
         in if \<not> pages_match pages_str then [''Pages should look like '12-34'.''] else [])
      else [])"

text \<open>
  The confidence: the share of the ten tracked fields that hold a true value.  The source
  rounds the quotient to two decimals, which leaves a number of tenths as it is.
\<close>

definition keys_for_conf :: "string list" where
  "keys_for_conf =
     [''title'', ''authors'', ''year'', ''journal'', ''publisher'', ''volume'', ''issue'',
      ''pages'', ''doi'', ''url'']"

definition confidence :: "pydict \<Rightarrow> rat" where
  "confidence item =
     of_nat (length (filter (\<lambda>k. truthy (get item k)) keys_for_conf)) /
     of_nat (length keys_for_conf)"

text \<open>The style-aware suggestions; \<^verbatim>\<open>s\<close> is the style name, trimmed and lower-cased.\<close>

definition apa_title_suggestions :: "string \<Rightarrow> string list" where
  "apa_title_suggestions title =
     (if title \<noteq> [] then
        (let words = filter (\<lambda>w. w \<noteq> []) (re_split_ws title);
             caps = length (filter (\<lambda>w. is_ascii_upper (hd w)) words)
         in if length words \<ge> 4 \<and> 2 * caps > length words
            then [''APA: Convert title to sentence case (capitalize first word and proper nouns).'']
            else [])
      else [])"

definition style_suggestions :: "string option \<Rightarrow> string \<Rightarrow> string \<Rightarrow> pydict \<Rightarrow> string list" where
  "style_suggestions style st title item =
     (case style of
        None \<Rightarrow> []
      | Some sty \<Rightarrow>
          if sty = [] then []
          else (let s = lower (strip sty) in
            if s = ''apa'' then
              apa_title_suggestions title @
              (if \<not> truthy (get item ''doi'') \<and> st \<in> set [''article'', ''journal'']
               then [''APA: Include DOI if available for journal articles.''] else [])
            else if s = ''mla'' then
              (if st \<in> set [''web'', ''website'']
               then [''MLA: Include access date for web sources (optional but common).'']
               else []) @
              (if st \<in> set [''article'', ''journal''] \<and> \<not> truthy (get item ''pages'')
               then [''MLA: Add page range for articles when applicable.''] else [])
            else if s = ''chicago'' then
              (if st \<in> set [''book''] \<and> \<not> truthy (get item ''publisher'')
               then [''Chicago: Include publisher for books and consider publisher location.'']
               else []) @
              (if st \<in> set [''article'', ''journal''] \<and> \<not> truthy (get item ''pages'')
               then [''Chicago: Provide page range for articles when available.''] else [])
            else if s = ''harvard'' then
              (if st \<in> set [''article'', ''journal''] \<and> \<not> truthy (get item ''pages'')
               then [''Harvard: Include page numbers for journal articles when applicable.'']
               else []) @
              (if st \<in> set [''web'', ''website''] \<and> \<not> truthy (get item ''url'')
               then [''Harvard: Provide the URL for web sources.''] else [])
            else if s = ''ieee'' then
              (if \<not> truthy (get item ''doi'') \<and> st \<in> set [''article'', ''journal'']
               then [''IEEE: Include DOI if available for journal articles.''] else []) @
              (if truthy (get item ''journal'')
               then [''IEEE: Use standard journal abbreviation if known.''] else [])
            else []))"

text \<open>
  \<^verbatim>\<open>validate(item, source_type, style)\<close>: the errors and the suggestions in the order in
  which the source appends them, and the confidence.  The one statement that can raise
  is the one that trims the title.
\<close>

definition validate ::
  "pydict \<Rightarrow> string option \<Rightarrow> string option \<Rightarrow> error + (string list \<times> string list \<times> rat)" where
  "validate item source_type style =
     (let st = lower (case source_type of None \<Rightarrow> ''article''
                      | Some s \<Rightarrow> if s = [] then ''article'' else s)
      in case title_text item of
           Inl e \<Rightarrow> Inl e
         | Inr title \<Rightarrow>
             Inr (missing_required item @ doi_errors item @ url_errors item @ year_errors item,
                  source_suggestions st item @ doi_suggestions item @ title_suggestions title @
                    number_suggestions item @ style_suggestions style st title item,
                  confidence item))"


section \<open>Notions of the specification about the validator\<close>

text \<open>A string that starts with \<^verbatim>\<open>http://doi.org/\<close> or \<^verbatim>\<open>https://doi.org/\<close>, as written.\<close>

definition has_url_prefix :: "string \<Rightarrow> bool" where
  "has_url_prefix s = (startswith s ''http://doi.org/'' \<or> startswith s ''https://doi.org/'')"

text \<open>
  The bare text of a DOI value: the value as a string, trimmed, without a leading
  \<^verbatim>\<open>http://doi.org/\<close> or \<^verbatim>\<open>https://doi.org/\<close>.
\<close>

definition bare_doi_text :: "pyval \<Rightarrow> string" where
  "bare_doi_text v =
     (let d = strip (py_str v)
      in if startswith d ''http://doi.org/'' then drop (length ''http://doi.org/'') d
         else if startswith d ''https://doi.org/'' then drop (length ''https://doi.org/'') d
         else d)"

text \<open>
  A DOI value whose trimmed text has no URL prefix in another spelling: when it starts
  with \<^verbatim>\<open>http://doi.org/\<close> or \<^verbatim>\<open>https://doi.org/\<close> in some case, it does so in lower case.
\<close>

definition url_prefix_lower_case :: "pyval \<Rightarrow> bool" where
  "url_prefix_lower_case v =
     (\<not> has_url_prefix (lower (strip (py_str v))) \<or> has_url_prefix (strip (py_str v)))"


section \<open>csl_engine.py: rendering one citation\<close>

text \<open>
  What \<^verbatim>\<open>format_with_csl\<close> takes from its environment: whether the import of
  \<^verbatim>\<open>citeproc\<close> succeeded, whether the style file that \<^verbatim>\<open>_style_path\<close> resolves for a style
  name exists, and the outcome of the body of the \<^verbatim>\<open>try\<close> block (the mapping to CSL-JSON
  and the calls into \<^verbatim>\<open>citeproc\<close>), which either returns the rendered text or raises.
\<close>

record csl_env =
  CITEPROC_AVAILABLE :: bool
  style_file_exists :: "string \<Rightarrow> bool"
  csl_render :: "string \<Rightarrow> pydict \<Rightarrow> string option \<Rightarrow> bool \<Rightarrow> error + string"

text \<open>\<^verbatim>\<open>v.strip()\<close> on a value: only a string has the method.\<close>

definition py_strip :: "pyval \<Rightarrow> error + string" where
  "py_strip v = (case v of PStr s \<Rightarrow> Inr (strip s) | _ \<Rightarrow> Inl AttributeError)"

text \<open>
  \<^verbatim>\<open>sep.join(v)\<close> on a value: a list must hold strings only, a string is joined character
  by character, anything else cannot be iterated.
\<close>

fun strs_of :: "pyval list \<Rightarrow> string list option" where
  "strs_of [] = Some []"
| "strs_of (PStr s # vs) = map_option ((#) s) (strs_of vs)"
| "strs_of (v # vs) = None"

definition py_join :: "string \<Rightarrow> pyval \<Rightarrow> error + string" where
  "py_join sep v =
     (case v of
        PList xs \<Rightarrow> (case strs_of xs of None \<Rightarrow> Inl TypeError | Some ss \<Rightarrow> Inr (join sep ss))
      | PStr s \<Rightarrow> Inr (join sep (map (\<lambda>c. [c]) s))
      | _ \<Rightarrow> Inl TypeError)"

text \<open>The \<^verbatim>\<open>except\<close> branch of \<^verbatim>\<open>format_with_csl\<close>: the manual concatenation.\<close>

definition manual_format :: "pydict \<Rightarrow> error + string" where
  "manual_format item =
     (let authors = py_or (get item ''authors'')
                      (if \<not> truthy (get item ''author'') then PList []
                       else PList [get item ''author''])
      in case (if truthy authors then py_join '', '' authors else Inr ''Unknown'') of
           Inl e \<Rightarrow> Inl e
         | Inr author_str \<Rightarrow>
      (let year = py_str (py_or (get item ''year'') (PStr ''n.d.''))
       in case py_strip (py_or (get item ''title'') (PStr [])) of
            Inl e \<Rightarrow> Inl e
          | Inr title \<Rightarrow>
       (case py_strip (py_or (py_or (get item ''journal'') (get item ''publisher'')) (PStr [])) of
            Inl e \<Rightarrow> Inl e
          | Inr journal \<Rightarrow>
       (let vol = strip (py_str (py_or (get item ''volume'') (PStr [])));
            iss = strip (py_str (py_or (get item ''issue'') (PStr [])));
            pages = strip (py_str (py_or (get item ''pages'') (PStr [])));
            doi = get item ''doi'';
            url = get item ''url'';
            vol_iss = (if vol \<noteq> [] then vol else []) @
                      (if iss \<noteq> [] then ''('' @ iss @ '')'' else []);
            tail = (if truthy doi
                    then PStr (''https://doi.org/'' @
                               strip (replace_all ''https://doi.org/'' [] (py_str doi)))
                    else py_or url (PStr []));
            parts = (if author_str \<noteq> [] then [PStr author_str] else []) @
                    (if year \<noteq> [] then [PStr year] else []) @
                    (if title \<noteq> [] then [PStr title] else []) @
                    (if journal \<noteq> [] then [PStr journal] else []) @
                    (if vol_iss \<noteq> [] then [PStr vol_iss] else []) @
                    (if pages \<noteq> [] then [PStr pages] else []) @
                    (if truthy tail then [tail] else [])
        in py_join ''. '' (PList (filter truthy parts))))))"

text \<open>
  \<^verbatim>\<open>format_with_csl\<close>: the two guards raise; past them, any exception of the rendering
  leads to the manual concatenation.
\<close>

definition format_with_csl ::
  "csl_env \<Rightarrow> string \<Rightarrow> pydict \<Rightarrow> string option \<Rightarrow> bool \<Rightarrow> error + string" where
  "format_with_csl env style item source_type include_doi =
     (if \<not> CITEPROC_AVAILABLE env then Inl RuntimeError
      else if \<not> style_file_exists env style then Inl FileNotFoundError
      else (case csl_render env style item source_type include_doi of
              Inr rendered \<Rightarrow> Inr rendered
            | Inl e \<Rightarrow> manual_format item))"

section \<open>ltm.py: the store\<close>

text \<open>
  The table \<^verbatim>\<open>citations\<close> as the list of its rows, oldest first.  The two columns of JSON
  text are kept as the values they encode, and the time stamp is left out.  Nothing in
  \<^verbatim>\<open>ltm.py\<close> deletes a row, so the next \<^verbatim>\<open>id\<close> is the number of rows plus one.
\<close>

record row =
  row_id :: nat
  row_doi :: "string option"
  row_title :: "string option"
  row_authors :: pyval
  row_style :: string
  row_formatted :: string
  row_metadata :: pydict
  row_user_id :: "string option"

text \<open>
  Binding a value to a column of type \<^verbatim>\<open>TEXT\<close>: \<^verbatim>\<open>None\<close> is \<^verbatim>\<open>NULL\<close>, an integer that fits
  in 64 bits is stored as its decimal text, a list cannot be bound.
\<close>

definition sql_text :: "pyval \<Rightarrow> error + string option" where
  "sql_text v =
     (case v of
        PNone \<Rightarrow> Inr None
      | PStr s \<Rightarrow> Inr (Some s)
      | PBool b \<Rightarrow> Inr (Some (if b then ''1'' else ''0''))
      | PInt i \<Rightarrow>
          if - (2 ^ 63) \<le> i \<and> i < 2 ^ 63 then Inr (Some (show_int i)) else Inl OverflowError
      | PList xs \<Rightarrow> Inl BindError)"

definition save_citation ::
  "row list \<Rightarrow> pydict \<Rightarrow> string \<Rightarrow> string \<Rightarrow> string option \<Rightarrow> error + row list" where
  "save_citation db item style formatted user_id =
     (case sql_text (get item ''doi'') of
        Inl e \<Rightarrow> Inl e
      | Inr doi \<Rightarrow>
          (case sql_text (get item ''title'') of
             Inl e \<Rightarrow> Inl e
           | Inr title \<Rightarrow>
               Inr (db @ [\<lparr>row_id = Suc (length db), row_doi = doi, row_title = title,
                           row_authors = py_or (get item ''authors'') (PList []),
                           row_style = style, row_formatted = formatted,
                           row_metadata = item, row_user_id = user_id\<rparr>])))"

text \<open>
  The SQL functions \<^verbatim>\<open>TRIM\<close> and \<^verbatim>\<open>LOWER\<close>: the first removes spaces only, the second
  changes the letters A to Z only.
\<close>

definition sql_trim :: "string \<Rightarrow> string" where
  "sql_trim s =
     rev (dropWhile (\<lambda>c. c = CHR '' '') (rev (dropWhile (\<lambda>c. c = CHR '' '') s)))"

definition sql_lower :: "string \<Rightarrow> string" where
  "sql_lower s = map (\<lambda>c. if is_ascii_upper c then char_of (of_char c + (32 :: nat)) else c) s"

text \<open>The two queries of \<^verbatim>\<open>exists_duplicate\<close>; a \<^verbatim>\<open>NULL\<close> column matches nothing.\<close>

definition doi_stored :: "row list \<Rightarrow> string \<Rightarrow> bool" where
  "doi_stored db doi_norm =
     list_ex (\<lambda>r. case row_doi r of None \<Rightarrow> False
                  | Some d \<Rightarrow> sql_lower (sql_trim d) = doi_norm) db"

definition title_stored :: "row list \<Rightarrow> string \<Rightarrow> bool" where
  "title_stored db title_norm =
     list_ex (\<lambda>r. case row_title r of None \<Rightarrow> False
                  | Some t \<Rightarrow> sql_lower (sql_trim t) = title_norm) db"

definition exists_duplicate :: "row list \<Rightarrow> pyval \<Rightarrow> pyval \<Rightarrow> error + bool" where
  "exists_duplicate db doi title =
     (case (if truthy doi
            then (case py_strip doi of Inl e \<Rightarrow> Inl e
                  | Inr d \<Rightarrow> Inr (doi_stored db (lower d)))
            else Inr False) of
        Inl e \<Rightarrow> Inl e
      | Inr found \<Rightarrow>
          if found then Inr True
          else if truthy title
          then (case py_strip title of Inl e \<Rightarrow> Inl e
                | Inr t \<Rightarrow> Inr (title_stored db (lower t)))
          else Inr False)"

section \<open>engine.py: saving to the store\<close>

text \<open>
  The text that \<^verbatim>\<open>save_to_ltm\<close> stores when the rendering gave nothing.  The separator
  is an em dash between spaces; the dash has a code point above 255 and is written here
  as its three UTF-8 bytes.
\<close>

definition em_dash_sep :: string where
  "em_dash_sep = [CHR '' '', CHR 0xE2, CHR 0x80, CHR 0x94, CHR '' '']"

definition ltm_fallback_text :: "pydict \<Rightarrow> string" where
  "ltm_fallback_text item =
     (let raw = strip (py_str (py_or (get item ''raw_text'') (PStr [])))
      in if raw \<noteq> [] then raw
         else (let title = strip (py_str (py_or (get item ''title'') (PStr ''Untitled'')));
                   year = py_str (py_or (get item ''year'') (PStr ''n.d.''));
                   journal = strip (py_str (py_or (py_or (get item ''journal'')
                                                     (get item ''publisher'')) (PStr [])));
                   doi = strip (py_str (py_or (get item ''doi'') (PStr [])));
                   pieces = [title] @
                            (if year \<noteq> [] \<and> year \<noteq> ''n.d.'' then [''('' @ year @ '')''] else []) @
                            (if journal \<noteq> [] then [journal] else []) @
                            (if doi \<noteq> [] then [''DOI: '' @ doi] else [])
               in if length pieces > 1 then join em_dash_sep pieces else title))"

text \<open>
  \<^verbatim>\<open>save_to_ltm\<close>: the guard against empty records, the duplicate check (an exception of
  the check is swallowed and the save goes on), the rendering with its fallback, the
  insertion.  The function returns nothing; its effect is the new state of the store.
\<close>

definition save_to_ltm ::
  "csl_env \<Rightarrow> row list \<Rightarrow> pydict \<Rightarrow> string option \<Rightarrow> string option \<Rightarrow> bool
     \<Rightarrow> error + row list" where
  "save_to_ltm env db item style user_id force_save =
     (if \<not> ((truthy (get item ''title'') \<and> strip (py_str (get item ''title'')) \<noteq> []) \<or>
             truthy (get item ''doi'') \<or> truthy (get item ''url'') \<or>
             truthy (get item ''raw_text''))
      then Inr db
      else if \<not> force_save \<and>
              exists_duplicate db (py_or (get item ''doi'') PNone)
                (py_or (get item ''title'') PNone) = Inr True
      then Inr db
      else (let style' = (case style of None \<Rightarrow> ''APA''
                          | Some s \<Rightarrow> if s = [] then ''APA'' else s);
                formatted = (case format_with_csl env style' item None True of
                               Inl e \<Rightarrow> []
                             | Inr s \<Rightarrow> s);
                formatted' = (if strip formatted = [] then ltm_fallback_text item
                              else formatted)
            in save_citation db item style' formatted' user_id))"

section \<open>Notions of the specification about the store\<close>

text \<open>
  The match of the specification and of the docstring of \<^verbatim>\<open>exists_duplicate\<close>: two texts
  are the same when they are equal after trimming white space and lowering the case, on
  both sides alike.
\<close>

definition same_text :: "string \<Rightarrow> string \<Rightarrow> bool" where
  "same_text a b = (lower (strip a) = lower (strip b))"

text \<open>
  A record already exists in the store when its DOI or its title, a non-empty string, is
  the same text as the DOI or the title of a stored row.
\<close>

definition already_stored :: "row list \<Rightarrow> pydict \<Rightarrow> bool" where
  "already_stored db item =
     ((case get item ''doi'' of
         PStr d \<Rightarrow> d \<noteq> [] \<and>
           list_ex (\<lambda>r. case row_doi r of None \<Rightarrow> False | Some x \<Rightarrow> same_text x d) db
       | _ \<Rightarrow> False) \<or>
      (case get item ''title'' of
         PStr t \<Rightarrow> t \<noteq> [] \<and>
           list_ex (\<lambda>r. case row_title r of None \<Rightarrow> False | Some x \<Rightarrow> same_text x t) db
       | _ \<Rightarrow> False))"


section \<open>Example environments and records\<close>

text \<open>An environment without \<^verbatim>\<open>citeproc\<close>, and one where it is installed but rendering raises.\<close>

definition engine_absent_env :: csl_env where
  "engine_absent_env =
     \<lparr>CITEPROC_AVAILABLE = False, style_file_exists = (\<lambda>style. True),
      csl_render = (\<lambda>style item source_type include_doi. Inl RuntimeError)\<rparr>"

definition engine_failing_env :: csl_env where
  "engine_failing_env =
     \<lparr>CITEPROC_AVAILABLE = True, style_file_exists = (\<lambda>style. True),
      csl_render = (\<lambda>style item source_type include_doi. Inl ValueError)\<rparr>"

text \<open>The record \<^verbatim>\<open>{title: "X", year: 2020, authors: ["A B"]}\<close> of the specification.\<close>

definition record_X :: pydict where
  "record_X = [(''title'', PStr ''X''), (''year'', PInt 2020), (''authors'', PList [PStr ''A B''])]"

text \<open>
  Records for the store: a title that starts with a capital outside ASCII (E with an acute
  accent, code point 0xC9, then \<^verbatim>\<open>cole\<close>), a title that
  ends with a tab, and a DOI in capitals with a space after it.
\<close>

definition record_accent :: pydict where
  "record_accent = [(''title'', PStr [CHR 0xC9, CHR ''c'', CHR ''o'', CHR ''l'', CHR ''e''])]"

definition record_tab :: pydict where
  "record_tab = [(''title'', PStr [CHR ''X'', CHR 0x09])]"

definition record_doi :: pydict where
  "record_doi = [(''doi'', PStr ''10.1000/ABC '')]"

text \<open>
  The store after a record was saved into the empty store without \<^verbatim>\<open>force_save\<close>
  (the empty store again, should the save raise).
\<close>

definition first_save :: "csl_env \<Rightarrow> pydict \<Rightarrow> row list" where
  "first_save env item =
     (case save_to_ltm env [] item None None False of Inl e \<Rightarrow> [] | Inr db \<Rightarrow> db)"


section \<open>Properties: dictionaries\<close>

lemma map_of_setitem: "map_of (setitem d k v) = (map_of d)(k \<mapsto> v)"
  by (induction d) (auto simp: fun_eq_iff)

lemma get_setitem: "get (setitem d k v) k' = (if k' = k then v else get d k')"
  by (simp add: get_def map_of_setitem)

lemma get_Nil: "get [] k = PNone"
  by (simp add: get_def)

lemma get_Cons: "get ((k', v) # d) k = (if k = k' then v else get d k)"
  by (simp add: get_def)

lemma map_of_None_get: "map_of d k = None \<Longrightarrow> get d k = PNone"
  by (simp add: get_def)

section \<open>Properties: the merger\<close>

lemma merge_loop_keeps:
  "truthy (get merged k) \<Longrightarrow> get (merge_loop merged inc) k = get merged k"
proof (induction inc arbitrary: merged)
  case Nil
  then show ?case by simp
next
  case (Cons p inc)
  obtain k' v where p: "p = (k', v)" by (cases p)
  show ?case
  proof (cases "\<not> truthy (get merged k') \<and> truthy v")
    case True
    with Cons.prems have ne: "k \<noteq> k'" by auto
    then have "truthy (get (setitem merged k' v) k)"
      using Cons.prems by (simp add: get_setitem)
    from Cons.IH [OF this] ne True show ?thesis
      by (simp add: p get_setitem)
  next
    case False
    then show ?thesis using Cons.IH [OF Cons.prems] by (auto simp: p)
  qed
qed

lemma merge_loop_origin:
  "get (merge_loop merged inc) k = get merged k \<or>
   (\<not> truthy (get merged k) \<and> truthy (get (merge_loop merged inc) k) \<and>
    (k, get (merge_loop merged inc) k) \<in> set inc)"
proof (induction inc arbitrary: merged)
  case Nil
  then show ?case by simp
next
  case (Cons p inc)
  obtain k' v where p: "p = (k', v)" by (cases p)
  show ?case
  proof (cases "\<not> truthy (get merged k') \<and> truthy v")
    case True
    then have step: "merge_loop merged (p # inc) = merge_loop (setitem merged k' v) inc"
      by (simp add: p)
    show ?thesis
    proof (cases "k = k'")
      case True
      have "truthy (get (setitem merged k' v) k)"
        using \<open>\<not> truthy (get merged k') \<and> truthy v\<close> True by (simp add: get_setitem)
      then have "get (merge_loop (setitem merged k' v) inc) k = v"
        using merge_loop_keeps [of "setitem merged k' v" k inc] True
        by (simp add: get_setitem)
      then show ?thesis
        using \<open>\<not> truthy (get merged k') \<and> truthy v\<close> True step by (simp add: p)
    next
      case False
      then show ?thesis
        using Cons.IH [of "setitem merged k' v"] step by (auto simp: get_setitem)
    qed
  next
    case False
    then have "merge_loop merged (p # inc) = merge_loop merged inc"
      by (auto simp: p)
    then show ?thesis using Cons.IH [of merged] by auto
  qed
qed

text \<open>
  C1.  A key whose value in \<^verbatim>\<open>base\<close> is true keeps that value in
  \<^verbatim>\<open>merge_metadata(base, incoming)\<close>; and every key of the result holds either the value of
  \<^verbatim>\<open>base\<close> or a true value of \<^verbatim>\<open>incoming\<close> at a key where \<^verbatim>\<open>base\<close> had no true value.
\<close>

theorem merge_metadata_first_writer_wins:
  "(truthy (get base k) \<longrightarrow> get (merge_metadata base incoming) k = get base k) \<and>
   (get (merge_metadata base incoming) k = get base k \<or>
    (\<not> truthy (get base k) \<and> truthy (get (merge_metadata base incoming) k) \<and>
     (k, get (merge_metadata base incoming) k) \<in> set incoming))"
  unfolding merge_metadata_def
  using merge_loop_keeps [of base k incoming] merge_loop_origin [of base incoming k]
  by blast

theorem merge_metadata_first_writer_wins_witness:
  "truthy (get [(''title'', PStr ''T''), (''year'', PNone)] ''title'') \<and>
   get (merge_metadata [(''title'', PStr ''T''), (''year'', PNone)]
          [(''title'', PStr ''U''), (''year'', PInt 2020)]) ''title'' = PStr ''T'' \<and>
   get (merge_metadata [(''title'', PStr ''T''), (''year'', PNone)]
          [(''title'', PStr ''U''), (''year'', PInt 2020)]) ''year'' = PInt 2020"
  using merge_metadata_first_writer_wins
    [of "[(''title'', PStr ''T''), (''year'', PNone)]" "''title''"
        "[(''title'', PStr ''U''), (''year'', PInt 2020)]"]
  by (simp add: merge_metadata_def get_def)

section \<open>Properties: duplicate detection\<close>

lemma keyless_dup_key: "keyless it \<Longrightarrow> dup_key it = Inr []"
  by (auto simp: keyless_def dup_key_def py_or_def lower_def strip_def
           split: pyval.splits)

lemma str_or_empty_dup_key:
  "str_or_empty (get it ''doi'') \<Longrightarrow> str_or_empty (get it ''title'') \<Longrightarrow>
   \<exists>key. dup_key it = Inr key"
  by (auto simp: str_or_empty_def dup_key_def py_or_def split: pyval.splits)

lemma detect_loop_keyless:
  "keyless it \<Longrightarrow> detect_loop seen out items = Inr res \<Longrightarrow>
   count_list res it = count_list out it + count_list items it"
proof (induction items arbitrary: seen out)
  case Nil
  then show ?case by simp
next
  case (Cons x items)
  from Cons.prems(2) obtain key where key: "dup_key x = Inr key"
    by (cases "dup_key x") auto
  show ?case
  proof (cases "key = []")
    case True
    with Cons.prems(2) key have "detect_loop seen (out @ [x]) items = Inr res" by simp
    from Cons.IH [OF Cons.prems(1) this] show ?thesis by simp
  next
    case False
    with key keyless_dup_key [OF Cons.prems(1)] have ne: "x \<noteq> it" by auto
    show ?thesis
    proof (cases "key \<in> seen")
      case True
      with Cons.prems(2) key False have "detect_loop seen out items = Inr res" by simp
      from Cons.IH [OF Cons.prems(1) this] ne show ?thesis by simp
    next
      case notin: False
      with Cons.prems(2) key False
      have "detect_loop (insert key seen) (out @ [x]) items = Inr res" by simp
      from Cons.IH [OF Cons.prems(1) this] ne show ?thesis by simp
    qed
  qed
qed

lemma detect_loop_returns:
  "\<forall>it\<in>set items. str_or_empty (get it ''doi'') \<and> str_or_empty (get it ''title'') \<Longrightarrow>
   \<exists>res. detect_loop seen out items = Inr res"
proof (induction items arbitrary: seen out)
  case Nil
  then show ?case by simp
next
  case (Cons x items)
  then obtain key where key: "dup_key x = Inr key"
    using str_or_empty_dup_key [of x] by auto
  from Cons.prems have rest:
    "\<forall>it\<in>set items. str_or_empty (get it ''doi'') \<and> str_or_empty (get it ''title'')"
    by simp
  show ?case using key Cons.IH [OF rest] by simp
qed

text \<open>
  C10.  When every item holds a string (or nothing true) as DOI and as title,
  \<^verbatim>\<open>detect_duplicates\<close> returns a list; and in every list it returns, an item that has
  neither a DOI nor a title that is non-empty once trimmed occurs as often as in the
  input, so it is never removed, however many equal copies there are.
\<close>

theorem detect_duplicates_keeps_keyless:
  "((\<forall>it\<in>set items. str_or_empty (get it ''doi'') \<and> str_or_empty (get it ''title''))
      \<longrightarrow> (\<exists>out. detect_duplicates items = Inr out)) \<and>
   (\<forall>out it. detect_duplicates items = Inr out \<and> keyless it
      \<longrightarrow> count_list out it = count_list items it \<and> (it \<in> set items \<longrightarrow> it \<in> set out))"
proof (intro conjI impI allI)
  assume "\<forall>it\<in>set items. str_or_empty (get it ''doi'') \<and> str_or_empty (get it ''title'')"
  then show "\<exists>out. detect_duplicates items = Inr out"
    unfolding detect_duplicates_def by (rule detect_loop_returns)
next
  fix out it
  assume a: "detect_duplicates items = Inr out \<and> keyless it"
  then show "count_list out it = count_list items it"
    using detect_loop_keyless [of it "{}" "[]" items out]
    by (simp add: detect_duplicates_def)
next
  fix out it
  assume a: "detect_duplicates items = Inr out \<and> keyless it" and m: "it \<in> set items"
  from a have "count_list out it = count_list items it"
    using detect_loop_keyless [of it "{}" "[]" items out]
    by (simp add: detect_duplicates_def)
  with m show "it \<in> set out"
    by (metis count_list_0_iff)
qed

theorem detect_duplicates_keeps_keyless_witness:
  "keyless [] \<and>
   str_or_empty (get [(''doi'', PStr ''10.1/a'')] ''doi'') \<and>
   detect_duplicates [[], [(''doi'', PStr ''10.1/a'')], [], [(''doi'', PStr ''10.1/A'')]]
     = Inr [[], [(''doi'', PStr ''10.1/a'')], []] \<and>
   count_list [[], [(''doi'', PStr ''10.1/a'')], []] [] = 2 \<and>
   [] \<in> set [[], [(''doi'', PStr ''10.1/a'')], []]"
proof -
  let ?items = "[[], [(''doi'', PStr ''10.1/a'')], [], [(''doi'', PStr ''10.1/A'')]]"
  let ?out = "[[], [(''doi'', PStr ''10.1/a'')], []]"
  have k: "keyless []" by (simp add: keyless_def get_def)
  have s: "str_or_empty (get [(''doi'', PStr ''10.1/a'')] ''doi'')"
    by (simp add: str_or_empty_def get_def)
  have r: "detect_duplicates ?items = Inr ?out" by code_simp
  from detect_duplicates_keeps_keyless [of ?items] r k
  have "count_list ?out [] = count_list ?items [] \<and> ([] \<in> set ?items \<longrightarrow> [] \<in> set ?out)"
    by blast
  then show ?thesis using k s r by simp
qed


section \<open>Properties: strings\<close>

lemma lower_char_idem: "lower_char (lower_char c) = lower_char c"
  by (auto simp: lower_char_def Let_def)

lemma isspace_lower_char: "isspace (lower_char c) = isspace c"
  by (auto simp: lower_char_def isspace_def Let_def)

lemma lower_idem: "lower (lower s) = lower s"
  by (simp add: lower_def lower_char_idem)

lemma dropWhile_isspace_lower:
  "dropWhile isspace (map lower_char s) = map lower_char (dropWhile isspace s)"
  by (induction s) (auto simp: isspace_lower_char)

lemma strip_lower: "strip (lower s) = lower (strip s)"
  by (simp add: strip_def lower_def dropWhile_isspace_lower rev_map)

lemma last_dropWhile: "dropWhile P xs \<noteq> [] \<Longrightarrow> last (dropWhile P xs) = last xs"
  by (induction xs) (auto split: if_splits)

text \<open>A string is trimmed when it neither starts nor ends with white space.\<close>

lemma strip_fixed:
  assumes "s = [] \<or> (\<not> isspace (hd s) \<and> \<not> isspace (last s))"
  shows "strip s = s"
proof (cases "s = []")
  case True
  then show ?thesis by (simp add: strip_def)
next
  case False
  with assms have h: "\<not> isspace (hd s)" and l: "\<not> isspace (last s)" by auto
  from False h have "dropWhile isspace s = s" by (cases s) auto
  moreover from False l have "dropWhile isspace (rev s) = rev s"
    by (cases "rev s") (auto simp: hd_rev)
  ultimately show ?thesis by (simp add: strip_def)
qed

lemma strip_trimmed:
  "strip s = [] \<or> (\<not> isspace (hd (strip s)) \<and> \<not> isspace (last (strip s)))"
proof (cases "strip s = []")
  case True
  then show ?thesis by simp
next
  case False
  define t where "t = dropWhile isspace s"
  define u where "u = dropWhile isspace (rev t)"
  have su: "strip s = rev u" by (simp add: strip_def t_def u_def)
  with False have une: "u \<noteq> []" by simp
  then have tne: "t \<noteq> []" by (auto simp: u_def)
  have "\<not> isspace (hd u)" using une unfolding u_def by (rule hd_dropWhile)
  then have l: "\<not> isspace (last (strip s))" using une by (simp add: su last_rev)
  have "last u = last (rev t)" using une unfolding u_def by (rule last_dropWhile)
  then have "hd (strip s) = hd t" using une tne by (simp add: su hd_rev last_rev)
  moreover have "\<not> isspace (hd t)" using tne unfolding t_def by (rule hd_dropWhile)
  ultimately show ?thesis using l by simp
qed

lemma strip_idem: "strip (strip s) = strip s"
  by (rule strip_fixed) (rule strip_trimmed)

lemma strip_Nil: "strip [] = []"
  by (simp add: strip_def)

lemma lower_Nil_iff: "lower s = [] \<longleftrightarrow> s = []"
  by (simp add: lower_def)


section \<open>Properties: the normalizer\<close>

lemma normalize_doi_idem:
  assumes "\<not> has_doi_prefix (normalize_doi v)"
  shows "normalize_doi (normalize_doi v) = normalize_doi v"
proof (cases "\<exists>s. v = PStr s \<and> s \<noteq> []")
  case False
  then have "normalize_doi v = v" by (cases v) (auto simp: normalize_doi_def)
  then show ?thesis by simp
next
  case True
  then obtain s where v: "v = PStr s" "s \<noteq> []" by auto
  then obtain d where r: "normalize_doi v = PStr (lower (strip d))"
    by (auto simp: normalize_doi_def Let_def)
  define r' where "r' = lower (strip d)"
  have fix1: "strip r' = r'" by (simp add: r'_def strip_lower strip_idem)
  have fix2: "lower r' = r'" by (simp add: r'_def lower_idem)
  from assms r have np: "\<not> startswith r' ''http://doi.org/''"
    "\<not> startswith r' ''https://doi.org/''" "\<not> startswith r' ''doi:''"
    by (simp_all add: has_doi_prefix_def r'_def)
  have "normalize_doi (PStr r') = PStr r'"
    using np by (simp add: normalize_doi_def Let_def fix1 fix2)
  then show ?thesis by (simp add: r r'_def)
qed

lemma normalize_metadata_Inr:
  assumes "normalize_metadata md = Inr r"
  obtains authors where "normalize_authors md = Inr authors"
    and "r = [(''title'', get_default md ''title'' (PStr [])),
              (''authors'', authors),
              (''year'', get md ''year''),
              (''journal'', get md ''journal''),
              (''publisher'', get md ''publisher''),
              (''volume'', get md ''volume''),
              (''issue'', get md ''issue''),
              (''pages'', normalize_pages (get md ''pages'')),
              (''doi'', normalize_doi (get md ''doi'')),
              (''url'', get md ''url''),
              (''raw_text'', get md ''raw_text''),
              (''source_type'', get md ''source_type'')]"
  using assms unfolding normalize_metadata_def by (cases "normalize_authors md") auto

lemma normalize_metadata_doi:
  assumes "normalize_metadata md = Inr r"
  shows "get r ''doi'' = normalize_doi (get md ''doi'')"
proof -
  from assms obtain authors where
    "r = [(''title'', get_default md ''title'' (PStr [])),
          (''authors'', authors),
          (''year'', get md ''year''),
          (''journal'', get md ''journal''),
          (''publisher'', get md ''publisher''),
          (''volume'', get md ''volume''),
          (''issue'', get md ''issue''),
          (''pages'', normalize_pages (get md ''pages'')),
          (''doi'', normalize_doi (get md ''doi'')),
          (''url'', get md ''url''),
          (''raw_text'', get md ''raw_text''),
          (''source_type'', get md ''source_type'')]"
    by (rule normalize_metadata_Inr)
  then show ?thesis by (simp add: get_Cons)
qed

lemma normalize_authors_doi_only: "normalize_authors [(''doi'', v)] = Inr (PList [])"
  by (simp add: normalize_authors_def Let_def get_Cons get_Nil py_or_def split_authors_def)

lemma normalize_metadata_doi_only:
  "\<exists>r. normalize_metadata [(''doi'', v)] = Inr r \<and> get r ''doi'' = normalize_doi v"
  by (simp add: normalize_metadata_def normalize_authors_doi_only get_Cons get_Nil)

lemma length_strip_le: "length (strip s) \<le> length s"
proof -
  have "length (strip s) \<le> length (dropWhile isspace s)"
    unfolding strip_def using length_dropWhile_le [of isspace "rev (dropWhile isspace s)"] by simp
  also have "\<dots> \<le> length s" by (rule length_dropWhile_le)
  finally show ?thesis .
qed

lemma length_lower: "length (lower s) = length s"
  by (simp add: lower_def)

lemma find_sub_bound: "find_sub sub s = Some i \<Longrightarrow> i + length sub \<le> length s"
proof (induction s arbitrary: i)
  case Nil
  then show ?case by (simp split: if_splits)
next
  case (Cons c cs)
  show ?case
  proof (cases "prefix sub (c # cs)")
    case True
    with Cons.prems have "i = 0" by simp
    moreover from True have "length sub \<le> length (c # cs)" by (rule prefix_length_le)
    ultimately show ?thesis by simp
  next
    case False
    with Cons.prems obtain j where "find_sub sub cs = Some j" "i = Suc j" by auto
    with Cons.IH [of j] show ?thesis by simp
  qed
qed

lemma find_sub_prefix: "prefix sub s \<Longrightarrow> find_sub sub s = Some 0"
  by (cases s) auto

lemma find_sub_append: "find_sub sub (a @ sub @ b) \<noteq> None"
proof (induction a)
  case Nil
  then show ?case using find_sub_prefix [of sub "sub @ b"] by simp
next
  case (Cons c a)
  then show ?case by auto
qed

lemma length_replace1_le: "length (replace1 old [] s) \<le> length s"
  by (auto simp: replace1_def split: option.splits)

lemma length_replace1_less:
  assumes "find_sub old s \<noteq> None" and "old \<noteq> []"
  shows "length (replace1 old [] s) < length s"
proof -
  from assms(1) obtain i where i: "find_sub old s = Some i" by auto
  from find_sub_bound [OF i] have b: "i + length old \<le> length s" .
  from assms(2) have p: "0 < length old" by simp
  from b have "length (replace1 old [] s) = length s - length old"
    by (simp add: replace1_def i)
  with b p show ?thesis by arith
qed

lemma length_split1_last_le: "length (last (split1 sep s)) \<le> length s"
  by (auto simp: split1_def split: option.splits)

lemma length_split1_last_less:
  assumes "find_sub sep s \<noteq> None" and "sep \<noteq> []"
  shows "length (last (split1 sep s)) < length s"
proof -
  from assms(1) obtain i where i: "find_sub sep s = Some i" by auto
  from find_sub_bound [OF i] have b: "i + length sep \<le> length s" .
  from assms(2) have p: "0 < length sep" by simp
  have "length (last (split1 sep s)) = length s - (i + length sep)"
    by (simp add: split1_def i)
  with b p show ?thesis by arith
qed

text \<open>The prefix-removing step of the DOI block, on a string that is trimmed and lower-case.\<close>

lemma doi_step_shrinks:
  assumes low: "lower r = r"
    and pre: "startswith r ''http://doi.org/'' \<or> startswith r ''https://doi.org/'' \<or>
              startswith r ''doi:''"
  shows "length (let d1 = replace1 ''doi:'' [] (replace1 ''DOI:'' [] r)
                 in if contains ''doi.org/'' (lower d1)
                    then last (split1 ''doi.org/'' d1) else d1) < length r"
proof -
  define d0 where "d0 = replace1 ''DOI:'' [] r"
  define d1 where "d1 = replace1 ''doi:'' [] d0"
  define d2 where "d2 = (if contains ''doi.org/'' (lower d1)
                         then last (split1 ''doi.org/'' d1) else d1)"
  have le0: "length d0 \<le> length r" unfolding d0_def by (rule length_replace1_le)
  have le1: "length d1 \<le> length d0" unfolding d1_def by (rule length_replace1_le)
  have le2: "length d2 \<le> length d1" unfolding d2_def by (simp add: length_split1_last_le)
  have "length d2 < length r"
  proof (cases "d1 = r")
    case False
    have "length d1 < length r"
    proof (cases "d0 = r")
      case True
      with False have "replace1 ''doi:'' [] r \<noteq> r" by (simp add: d1_def)
      then have "find_sub ''doi:'' r \<noteq> None"
        by (cases "find_sub ''doi:'' r") (simp_all add: replace1_def)
      then have "length (replace1 ''doi:'' [] r) < length r"
        by (rule length_replace1_less) simp
      with True show ?thesis by (simp add: d1_def)
    next
      case False
      then have "find_sub ''DOI:'' r \<noteq> None"
        by (cases "find_sub ''DOI:'' r") (simp_all add: d0_def replace1_def)
      then have "length d0 < length r"
        unfolding d0_def by (rule length_replace1_less) simp
      with le1 show ?thesis by simp
    qed
    with le2 show ?thesis by simp
  next
    case True
    have nodoi: "\<not> startswith r ''doi:''"
    proof
      assume "startswith r ''doi:''"
      then have "find_sub ''doi:'' r \<noteq> None"
        by (simp add: startswith_def find_sub_prefix)
      moreover have "d0 = r"
      proof (rule ccontr)
        assume "d0 \<noteq> r"
        then have "find_sub ''DOI:'' r \<noteq> None"
          by (cases "find_sub ''DOI:'' r") (simp_all add: d0_def replace1_def)
        then have "length d0 < length r"
          unfolding d0_def by (rule length_replace1_less) simp
        with le1 True show False by simp
      qed
      ultimately have "length d1 < length r"
        unfolding d1_def using length_replace1_less [of "''doi:''" r] by simp
      with True show False by simp
    qed
    with pre have "startswith r ''http://doi.org/'' \<or> startswith r ''https://doi.org/''"
      by simp
    then have "(\<exists>b. r = ''http://'' @ ''doi.org/'' @ b) \<or> (\<exists>b. r = ''https://'' @ ''doi.org/'' @ b)"
      by (auto simp: startswith_def prefix_def)
    then have f: "find_sub ''doi.org/'' r \<noteq> None"
      using find_sub_append [of "''doi.org/''" "''http://''"]
        find_sub_append [of "''doi.org/''" "''https://''"] by metis
    then have "contains ''doi.org/'' (lower d1)" by (simp add: True low contains_def)
    then have "d2 = last (split1 ''doi.org/'' r)" by (simp add: d2_def True)
    moreover have "length (last (split1 ''doi.org/'' r)) < length r"
      using f by (rule length_split1_last_less) simp
    ultimately show ?thesis by simp
  qed
  then show ?thesis unfolding d2_def d1_def d0_def Let_def .
qed

lemma normalize_doi_not_idem:
  assumes "has_doi_prefix (normalize_doi v)"
  shows "normalize_doi (normalize_doi v) \<noteq> normalize_doi v"
proof -
  from assms obtain r where r: "normalize_doi v = PStr r"
    by (cases "normalize_doi v") (auto simp: has_doi_prefix_def)
  with assms have pre: "startswith r ''http://doi.org/'' \<or> startswith r ''https://doi.org/'' \<or>
              startswith r ''doi:''"
    by (simp add: has_doi_prefix_def)
  then have ne: "r \<noteq> []" by (auto simp: startswith_def)
  have "\<exists>d. r = lower (strip d)"
  proof (cases "\<exists>s. v = PStr s \<and> s \<noteq> []")
    case True
    then show ?thesis using r by (auto simp: normalize_doi_def Let_def)
  next
    case False
    then have "normalize_doi v = v" by (cases v) (auto simp: normalize_doi_def)
    with r ne False show ?thesis by simp
  qed
  then obtain d where d: "r = lower (strip d)" by blast
  have fix1: "strip r = r" by (simp add: d strip_lower strip_idem)
  have fix2: "lower r = r" by (simp add: d lower_idem)
  define d' where "d' = (let d1 = replace1 ''doi:'' [] (replace1 ''DOI:'' [] r)
                 in if contains ''doi.org/'' (lower d1)
                    then last (split1 ''doi.org/'' d1) else d1)"
  have less: "length d' < length r" unfolding d'_def using fix2 pre by (rule doi_step_shrinks)
  have "normalize_doi (PStr r) = PStr (lower (strip d'))"
    using ne pre by (simp add: normalize_doi_def fix1 fix2 d'_def Let_def)
  moreover have "length (lower (strip d')) < length r"
    using less length_strip_le [of d'] by (simp add: length_lower)
  ultimately show ?thesis using r by auto
qed

text \<open>
  C3.  The DOI block finds a prefix on the lower-cased string and removes it from the
  string as written: \<^verbatim>\<open>Doi:\<close> and \<^verbatim>\<open>HTTPS://DOI.ORG/\<close> pass the test and stay in the result,
  lower-cased.
\<close>

theorem normalize_metadata_mixed_case_prefix_stays:
  "map_sum id (\<lambda>r. get r ''doi'') (normalize_metadata [(''doi'', PStr ''Doi:10.1000/xyz123'')])
     = Inr (PStr ''doi:10.1000/xyz123'') \<and>
   map_sum id (\<lambda>r. get r ''doi'')
     (normalize_metadata [(''doi'', PStr ''HTTPS://DOI.ORG/10.1000/xyz123'')])
     = Inr (PStr ''https://doi.org/10.1000/xyz123'') \<and>
   map_sum id (\<lambda>r. get r ''doi'')
     (normalize_metadata [(''doi'', PStr ''https://doi.org/10.1000/XYZ123'')])
     = Inr (PStr ''10.1000/xyz123'')"
  by code_simp

text \<open>
  C4, as stated, fails: for the input \<^verbatim>\<open>doi:doi:10.1000/x\<close> the first pass returns
  \<^verbatim>\<open>doi:10.1000/x\<close>, and the second pass changes this DOI to \<^verbatim>\<open>10.1000/x\<close>.
\<close>

theorem normalize_doi_twice_counterexample:
  "map_sum id (\<lambda>r. get r ''doi'') (normalize_metadata [(''doi'', PStr ''doi:doi:10.1000/x'')])
     = Inr (PStr ''doi:10.1000/x'') \<and>
   map_sum id (\<lambda>r. get r ''doi'') (normalize_metadata [(''doi'', PStr ''doi:10.1000/x'')])
     = Inr (PStr ''10.1000/x'')"
  by code_simp

text \<open>
  C4, amended.  Normalizing a record that holds the DOI returned by \<^verbatim>\<open>normalize_metadata\<close>
  returns the same DOI exactly when that DOI does not itself start with \<^verbatim>\<open>doi:\<close>,
  \<^verbatim>\<open>http://doi.org/\<close> or \<^verbatim>\<open>https://doi.org/\<close>; when it does start with one of them,
  the second pass returns a different DOI.
\<close>

theorem normalize_doi_idempotent_without_prefix:
  "normalize_metadata x = Inr r \<Longrightarrow>
   \<exists>r'. normalize_metadata [(''doi'', get r ''doi'')] = Inr r' \<and>
        (get r' ''doi'' = get r ''doi'' \<longleftrightarrow> \<not> has_doi_prefix (get r ''doi''))"
  using normalize_metadata_doi_only [of "get r ''doi''"] normalize_doi_idem [of "get x ''doi''"]
    normalize_doi_not_idem [of "get x ''doi''"]
  by (auto simp: normalize_metadata_doi)

theorem normalize_doi_idempotent_without_prefix_witness:
  "map_sum id (\<lambda>r. get r ''doi'') (normalize_metadata [(''doi'', PStr '' DOI:10.1000/ABC '')])
     = Inr (PStr ''10.1000/abc'') \<and>
   \<not> has_doi_prefix (PStr ''10.1000/abc'') \<and>
   (\<exists>r'. normalize_metadata [(''doi'', PStr ''10.1000/abc'')] = Inr r' \<and>
         get r' ''doi'' = PStr ''10.1000/abc'')"
proof -
  obtain r where r: "normalize_metadata [(''doi'', PStr '' DOI:10.1000/ABC '')] = Inr r"
    using normalize_metadata_doi_only by blast
  have v: "map_sum id (\<lambda>r. get r ''doi'')
             (normalize_metadata [(''doi'', PStr '' DOI:10.1000/ABC '')])
           = Inr (PStr ''10.1000/abc'')"
    by code_simp
  with r have d: "get r ''doi'' = PStr ''10.1000/abc''" by simp
  have p: "\<not> has_doi_prefix (PStr ''10.1000/abc'')" by code_simp
  from normalize_doi_idempotent_without_prefix [OF r] p d
  have "\<exists>r'. normalize_metadata [(''doi'', PStr ''10.1000/abc'')] = Inr r' \<and>
         get r' ''doi'' = PStr ''10.1000/abc''"
    by auto
  with v p show ?thesis by blast
qed

section \<open>Properties: authors and pass-through fields\<close>

lemma split_scan_length: "length (split_scan P cur s) = Suc (length (filter P s))"
  by (induction s arbitrary: cur) auto

lemma split_scan_concat: "concat (split_scan P cur s) = rev cur @ filter (\<lambda>c. \<not> P c) s"
  by (induction s arbitrary: cur) auto

lemma split_scan_no_sep:
  "\<forall>c\<in>set cur. \<not> P c \<Longrightarrow> \<forall>seg\<in>set (split_scan P cur s). \<forall>c\<in>set seg. \<not> P c"
proof (induction s arbitrary: cur)
  case Nil
  then show ?case by simp
next
  case (Cons a s)
  show ?case
  proof (cases "P a")
    case True
    have "\<forall>seg\<in>set (split_scan P [] s). \<forall>c\<in>set seg. \<not> P c"
      by (rule Cons.IH) simp
    with True Cons.prems show ?thesis by simp
  next
    case False
    with Cons.prems have "\<forall>c\<in>set (a # cur). \<not> P c" by simp
    then have "\<forall>seg\<in>set (split_scan P (a # cur) s). \<forall>c\<in>set seg. \<not> P c"
      by (rule Cons.IH)
    with False show ?thesis by simp
  qed
qed

lemma set_strip: "set (strip s) \<subseteq> set s"
proof -
  have "set (strip s) \<subseteq> set (dropWhile isspace s)"
    unfolding strip_def using set_dropWhileD [of _ isspace "rev (dropWhile isspace s)"] by auto
  also have "\<dots> \<subseteq> set s" using set_dropWhileD [of _ isspace s] by auto
  finally show ?thesis .
qed

lemma author_segments_props:
  assumes "p \<in> set (author_segments s)"
  shows "strip p \<noteq> [] \<and> strip (strip p) = strip p \<and> (\<forall>c\<in>set (strip p). \<not> is_author_sep c)"
proof -
  from assms have ne: "strip p \<noteq> []" and mem: "p \<in> set (split_scan is_author_sep [] s)"
    by (simp_all add: author_segments_def re_split_class_def)
  from mem have "\<forall>c\<in>set p. \<not> is_author_sep c"
    using split_scan_no_sep [of "[]" is_author_sep s] by auto
  then have "\<forall>c\<in>set (strip p). \<not> is_author_sep c" using set_strip [of p] by auto
  with ne show ?thesis by (simp add: strip_idem)
qed

lemma normalize_metadata_authors_of_string:
  assumes "get md ''author'' = PStr s" and "s \<noteq> []"
  shows "map_sum id (\<lambda>r. get r ''authors'') (normalize_metadata md)
         = Inr (PList (map PStr (if author_segments s \<noteq> [] then map strip (author_segments s)
                                 else [strip s])))"
proof -
  have af: "py_or (get md ''author'') (get md ''authors'') = PStr s"
    using assms by (simp add: py_or_def)
  have sa: "split_authors (py_or (PStr s) (PStr [])) =
     Inr (if author_segments s \<noteq> [] then map strip (author_segments s) else [strip s])"
    using assms(2) by (simp add: py_or_def split_authors_def author_segments_def Let_def)
  have "normalize_authors md =
     Inr (PList (map PStr (if author_segments s \<noteq> [] then map strip (author_segments s)
                           else [strip s])))"
    unfolding normalize_authors_def af Let_def by (simp add: sa)
  then show ?thesis
    by (simp add: normalize_metadata_def get_Cons)
qed

text \<open>
  C7, as stated, fails: the author string \<^verbatim>\<open>","\<close> has no segment that is non-empty once
  trimmed, and the list returned has one element, the trimmed string itself.
\<close>

theorem normalize_authors_blank_segments_counterexample:
  "author_segments '','' = [] \<and>
   map_sum id (\<lambda>r. get r ''authors'') (normalize_metadata [(''author'', PStr '','')])
     = Inr (PList [PStr '',''])"
  by code_simp

text \<open>
  C7, amended.  For a non-empty raw author string under \<^verbatim>\<open>author\<close> with at least one
  segment that is non-empty once trimmed, the authors returned are these segments,
  trimmed, in order and as many; each is non-empty, trimmed and free of \<^verbatim>\<open>;\<close> and \<^verbatim>\<open>,\<close>.
  When no segment is non-empty once trimmed, the list holds the trimmed string alone.
\<close>

theorem normalize_authors_from_string:
  assumes "get md ''author'' = PStr s" and "s \<noteq> []"
  shows "\<exists>names.
           map_sum id (\<lambda>r. get r ''authors'') (normalize_metadata md)
             = Inr (PList (map PStr names)) \<and>
           (author_segments s \<noteq> [] \<longrightarrow>
              names = map strip (author_segments s) \<and>
              length names = length (author_segments s) \<and>
              (\<forall>n\<in>set names. n \<noteq> [] \<and> strip n = n \<and> (\<forall>c\<in>set n. \<not> is_author_sep c))) \<and>
           (author_segments s = [] \<longrightarrow> names = [strip s])"
proof (cases "author_segments s = []")
  case True
  then show ?thesis
    using normalize_metadata_authors_of_string [OF assms] by simp
next
  case False
  have "\<forall>n\<in>set (map strip (author_segments s)).
          n \<noteq> [] \<and> strip n = n \<and> (\<forall>c\<in>set n. \<not> is_author_sep c)"
    using author_segments_props [of _ s] by auto
  with False show ?thesis
    using normalize_metadata_authors_of_string [OF assms] by simp
qed

theorem normalize_authors_from_string_witness:
  "get [(''author'', PStr ''A B;  C D, ,E'')] ''author'' = PStr ''A B;  C D, ,E'' \<and>
   author_segments ''A B;  C D, ,E'' = [''A B'', ''  C D'', ''E''] \<and>
   map_sum id (\<lambda>r. get r ''authors'') (normalize_metadata [(''author'', PStr ''A B;  C D, ,E'')])
     = Inr (PList [PStr ''A B'', PStr ''C D'', PStr ''E''])"
proof -
  have g: "get [(''author'', PStr ''A B;  C D, ,E'')] ''author'' = PStr ''A B;  C D, ,E''"
    by (simp add: get_def)
  have ne: "''A B;  C D, ,E'' \<noteq> []" by simp
  have segs: "author_segments ''A B;  C D, ,E'' = [''A B'', ''  C D'', ''E'']" by code_simp
  have st: "map strip [''A B'', ''  C D'', ''E''] = [''A B'', ''C D'', ''E'']" by code_simp
  from normalize_authors_from_string [OF g ne] segs st g show ?thesis by auto
qed

lemma normalize_authors_returns:
  assumes "author_fields_ok md"
  shows "\<exists>a. normalize_authors md = Inr a"
proof (cases "py_or (get md ''author'') (get md ''authors'')")
  case (PStr s)
  then show ?thesis
    by (simp add: normalize_authors_def Let_def split_authors_def py_or_def)
next
  case (PList xs)
  then show ?thesis by (simp add: normalize_authors_def Let_def)
next
  case PNone
  then show ?thesis
    by (simp add: normalize_authors_def Let_def split_authors_def py_or_def)
next
  case (PBool b)
  with assms have "\<not> b" by (simp add: author_fields_ok_def)
  with PBool show ?thesis
    by (simp add: normalize_authors_def Let_def split_authors_def py_or_def)
next
  case (PInt i)
  with assms have "i = 0" by (simp add: author_fields_ok_def)
  with PInt show ?thesis
    by (simp add: normalize_authors_def Let_def split_authors_def py_or_def)
qed

lemma normalize_metadata_returns:
  "author_fields_ok md \<Longrightarrow> \<exists>r. normalize_metadata md = Inr r"
  using normalize_authors_returns [of md] by (auto simp: normalize_metadata_def)

lemma normalize_metadata_passthrough:
  assumes "normalize_metadata md = Inr r"
  shows "map fst r = [''title'', ''authors'', ''year'', ''journal'', ''publisher'', ''volume'',
                      ''issue'', ''pages'', ''doi'', ''url'', ''raw_text'', ''source_type'']"
    and "get r ''title'' = get_default md ''title'' (PStr [])"
    and "get r ''year'' = get md ''year''"
    and "get r ''journal'' = get md ''journal''"
    and "get r ''publisher'' = get md ''publisher''"
    and "get r ''volume'' = get md ''volume''"
    and "get r ''issue'' = get md ''issue''"
    and "get r ''url'' = get md ''url''"
    and "get r ''raw_text'' = get md ''raw_text''"
    and "get r ''source_type'' = get md ''source_type''"
proof -
  from assms obtain authors where r:
    "r = [(''title'', get_default md ''title'' (PStr [])),
          (''authors'', authors),
          (''year'', get md ''year''),
          (''journal'', get md ''journal''),
          (''publisher'', get md ''publisher''),
          (''volume'', get md ''volume''),
          (''issue'', get md ''issue''),
          (''pages'', normalize_pages (get md ''pages'')),
          (''doi'', normalize_doi (get md ''doi'')),
          (''url'', get md ''url''),
          (''raw_text'', get md ''raw_text''),
          (''source_type'', get md ''source_type'')]"
    by (rule normalize_metadata_Inr)
  show "map fst r = [''title'', ''authors'', ''year'', ''journal'', ''publisher'', ''volume'',
                      ''issue'', ''pages'', ''doi'', ''url'', ''raw_text'', ''source_type'']"
    by (simp add: r)
  show "get r ''title'' = get_default md ''title'' (PStr [])" by (simp add: r get_Cons)
  show "get r ''year'' = get md ''year''" by (simp add: r get_Cons)
  show "get r ''journal'' = get md ''journal''" by (simp add: r get_Cons)
  show "get r ''publisher'' = get md ''publisher''" by (simp add: r get_Cons)
  show "get r ''volume'' = get md ''volume''" by (simp add: r get_Cons)
  show "get r ''issue'' = get md ''issue''" by (simp add: r get_Cons)
  show "get r ''url'' = get md ''url''" by (simp add: r get_Cons)
  show "get r ''raw_text'' = get md ''raw_text''" by (simp add: r get_Cons)
  show "get r ''source_type'' = get md ''source_type''" by (simp add: r get_Cons)
qed

text \<open>
  C8, as stated, fails: for the empty input the title of the result is the empty string,
  not an absent value.
\<close>

theorem normalize_title_default_counterexample:
  "get [] ''title'' = PNone \<and>
   map_sum id (\<lambda>r. get r ''title'') (normalize_metadata []) = Inr (PStr [])"
  by code_simp

text \<open>
  C8, amended.  \<^verbatim>\<open>normalize_metadata\<close> returns a record when the author fields hold a list,
  a string or nothing true.  The record it returns has the twelve keys of the data model;
  year, journal, publisher, volume, issue, url, raw_text and source_type have the value
  the input has (the absent value \<^verbatim>\<open>None\<close> when the input has no such key); the title has
  the value of the input when the input has the key, and is the empty string otherwise.
\<close>

theorem normalize_passthrough_fields:
  "(author_fields_ok md \<longrightarrow> (\<exists>r. normalize_metadata md = Inr r)) \<and>
   (\<forall>r. normalize_metadata md = Inr r \<longrightarrow>
      map fst r = [''title'', ''authors'', ''year'', ''journal'', ''publisher'', ''volume'',
                   ''issue'', ''pages'', ''doi'', ''url'', ''raw_text'', ''source_type''] \<and>
      (\<forall>k\<in>set passthrough_fields. get r k = get md k) \<and>
      get r ''title'' = (case map_of md ''title'' of None \<Rightarrow> PStr [] | Some v \<Rightarrow> v))"
proof (intro conjI impI allI)
  assume "author_fields_ok md"
  then show "\<exists>r. normalize_metadata md = Inr r" by (rule normalize_metadata_returns)
next
  fix r assume r: "normalize_metadata md = Inr r"
  show "map fst r = [''title'', ''authors'', ''year'', ''journal'', ''publisher'', ''volume'',
                     ''issue'', ''pages'', ''doi'', ''url'', ''raw_text'', ''source_type'']"
    by (rule normalize_metadata_passthrough(1) [OF r])
  show "\<forall>k\<in>set passthrough_fields. get r k = get md k"
    using normalize_metadata_passthrough(3-10) [OF r] by (simp add: passthrough_fields_def)
  show "get r ''title'' = (case map_of md ''title'' of None \<Rightarrow> PStr [] | Some v \<Rightarrow> v)"
    using normalize_metadata_passthrough(2) [OF r] by (simp add: get_default_def)
qed

theorem normalize_passthrough_fields_witness:
  "author_fields_ok [(''year'', PInt 2020), (''title'', PNone)] \<and>
   (\<exists>r. normalize_metadata [(''year'', PInt 2020), (''title'', PNone)] = Inr r \<and>
        get r ''year'' = PInt 2020 \<and> get r ''journal'' = PNone \<and> get r ''title'' = PNone)"
proof -
  let ?md = "[(''year'', PInt 2020), (''title'', PNone)]"
  have ok: "author_fields_ok ?md" by code_simp
  with normalize_passthrough_fields [of ?md] obtain r where r: "normalize_metadata ?md = Inr r"
    by blast
  with normalize_passthrough_fields [of ?md]
  have "(\<forall>k\<in>set passthrough_fields. get r k = get ?md k) \<and>
        get r ''title'' = (case map_of ?md ''title'' of None \<Rightarrow> PStr [] | Some v \<Rightarrow> v)"
    by blast
  then have "get r ''year'' = PInt 2020 \<and> get r ''journal'' = PNone \<and> get r ''title'' = PNone"
    by (simp add: passthrough_fields_def get_def)
  with ok r show ?thesis by blast
qed


section \<open>Properties: the validator\<close>

lemma missing_required_title:
  "''Missing required field: title'' \<in> set (missing_required item) \<longleftrightarrow>
   \<not> truthy (get item ''title'')"
  by (simp add: missing_required_def required_common_def)

lemma missing_required_not_doi: "''Invalid DOI syntax.'' \<notin> set (missing_required item)"
  by (simp add: missing_required_def required_common_def)

lemma doi_errors_subset: "set (doi_errors item) \<subseteq> {''Invalid DOI syntax.''}"
  by (auto simp: doi_errors_def Let_def)

lemma url_errors_subset:
  "set (url_errors item) \<subseteq> {''URL must start with http:// or https://''}"
  by (auto simp: url_errors_def Let_def)

lemma year_errors_subset:
  "set (year_errors item) \<subseteq>
     {''Year looks out of plausible range (1500'' @ en_dash @ ''2100).'',
      ''Year must be numeric.''}"
  by (auto simp: year_errors_def split: sum.splits if_splits)

lemma title_not_in_doi_errors: "''Missing required field: title'' \<notin> set (doi_errors item)"
  using doi_errors_subset [of item] by auto

lemma title_not_in_url_errors: "''Missing required field: title'' \<notin> set (url_errors item)"
  using url_errors_subset [of item] by auto

lemma title_not_in_year_errors: "''Missing required field: title'' \<notin> set (year_errors item)"
  using year_errors_subset [of item] by (auto simp: en_dash_def)

lemma doi_not_in_url_errors: "''Invalid DOI syntax.'' \<notin> set (url_errors item)"
  using url_errors_subset [of item] by auto

lemma doi_not_in_year_errors: "''Invalid DOI syntax.'' \<notin> set (year_errors item)"
  using year_errors_subset [of item] by (auto simp: en_dash_def)

lemma validate_errors:
  assumes "validate item source_type style = Inr (errs, suggs, conf)"
  shows "errs = missing_required item @ doi_errors item @ url_errors item @ year_errors item"
  using assms unfolding validate_def Let_def by (cases "title_text item") auto

lemma validate_returns:
  assumes "str_or_empty (get item ''title'')"
  shows "\<exists>errs suggs conf. validate item source_type style = Inr (errs, suggs, conf)"
proof -
  from assms have "\<exists>t. title_text item = Inr t"
    by (cases "get item ''title''") (simp_all add: str_or_empty_def title_text_def py_or_def)
  then show ?thesis unfolding validate_def Let_def by auto
qed

text \<open>
  C5.  \<^verbatim>\<open>validate\<close> returns its three results whenever the title is a string or nothing
  true; and whatever it returns, for any source type and style, the error list holds
  \<^verbatim>\<open>Missing required field: title\<close> exactly when the record has no true value under
  \<^verbatim>\<open>title\<close>.
\<close>

theorem validate_missing_title_iff:
  "(str_or_empty (get item ''title'') \<longrightarrow>
      (\<exists>errs suggs conf. validate item source_type style = Inr (errs, suggs, conf))) \<and>
   (\<forall>errs suggs conf. validate item source_type style = Inr (errs, suggs, conf) \<longrightarrow>
      (''Missing required field: title'' \<in> set errs \<longleftrightarrow> \<not> truthy (get item ''title'')))"
proof (intro conjI impI allI)
  assume "str_or_empty (get item ''title'')"
  then show "\<exists>errs suggs conf. validate item source_type style = Inr (errs, suggs, conf)"
    by (rule validate_returns)
next
  fix errs suggs conf
  assume "validate item source_type style = Inr (errs, suggs, conf)"
  then have "errs = missing_required item @ doi_errors item @ url_errors item @ year_errors item"
    by (rule validate_errors)
  then show "''Missing required field: title'' \<in> set errs \<longleftrightarrow> \<not> truthy (get item ''title'')"
    using missing_required_title [of item] title_not_in_doi_errors [of item]
      title_not_in_url_errors [of item] title_not_in_year_errors [of item]
    by simp
qed

lemma split_http:
  assumes "startswith d ''http://doi.org/''"
  shows "last (split1 ''doi.org/'' d) = drop (length ''http://doi.org/'') d"
proof -
  from assms obtain rest where d: "d = ''http://doi.org/'' @ rest"
    by (auto simp: startswith_def prefix_def)
  have "find_sub ''doi.org/'' d = Some 7" by (simp add: d)
  then show ?thesis by (simp add: split1_def d)
qed

lemma split_https:
  assumes "startswith d ''https://doi.org/''"
  shows "last (split1 ''doi.org/'' d) = drop (length ''https://doi.org/'') d"
proof -
  from assms obtain rest where d: "d = ''https://doi.org/'' @ rest"
    by (auto simp: startswith_def prefix_def)
  have "find_sub ''doi.org/'' d = Some 8" by (simp add: d)
  then show ?thesis by (simp add: split1_def d)
qed

lemma has_url_prefix_lower:
  assumes "has_url_prefix d"
  shows "has_url_prefix (lower d)"
proof -
  have l1: "lower ''http://doi.org/'' = ''http://doi.org/''" by code_simp
  have l2: "lower ''https://doi.org/'' = ''https://doi.org/''" by code_simp
  from assms consider rest where "d = ''http://doi.org/'' @ rest"
    | rest where "d = ''https://doi.org/'' @ rest"
    by (auto simp: has_url_prefix_def startswith_def prefix_def)
  then show ?thesis
  proof cases
    case 1
    have "lower d = lower ''http://doi.org/'' @ lower rest" unfolding 1 lower_def by simp
    then show ?thesis unfolding l1 by (simp add: has_url_prefix_def startswith_def)
  next
    case 2
    have "lower d = lower ''https://doi.org/'' @ lower rest" unfolding 2 lower_def by simp
    then show ?thesis unfolding l2 by (simp add: has_url_prefix_def startswith_def)
  qed
qed

lemma not_both_prefixes: "startswith d ''http://doi.org/'' \<Longrightarrow> \<not> startswith d ''https://doi.org/''"
  by (auto simp: startswith_def prefix_def)

lemma doi_syntax_is_valid_bare:
  assumes "url_prefix_lower_case v"
  shows "doi_syntax_is_valid (strip (py_str v)) = DOI_REGEX_match (bare_doi_text v)"
proof -
  define d where "d = strip (py_str v)"
  have sd: "strip d = d" by (simp add: d_def strip_idem)
  show ?thesis
  proof (cases "d = []")
    case True
    then show ?thesis
      by (simp add: doi_syntax_is_valid_def bare_doi_text_def d_def [symmetric] Let_def
            DOI_REGEX_match_def startswith_def)
  next
    case False
    show ?thesis
    proof (cases "has_url_prefix d")
      case True
      then have low: "has_url_prefix (lower d)" by (rule has_url_prefix_lower)
      from True have "last (split1 ''doi.org/'' d) = bare_doi_text v"
        using split_http [of d] split_https [of d] not_both_prefixes [of d]
        by (auto simp: has_url_prefix_def bare_doi_text_def d_def [symmetric] Let_def)
      with low False show ?thesis
        by (simp add: doi_syntax_is_valid_def d_def [symmetric] Let_def sd has_url_prefix_def)
    next
      case nopre: False
      with assms have nl: "\<not> has_url_prefix (lower d)"
        by (simp add: url_prefix_lower_case_def d_def)
      from nopre have "bare_doi_text v = d"
        by (simp add: has_url_prefix_def bare_doi_text_def d_def [symmetric] Let_def)
      with nl False show ?thesis
        by (simp add: doi_syntax_is_valid_def d_def [symmetric] Let_def sd has_url_prefix_def)
    qed
  qed
qed

lemma doi_errors_iff:
  assumes "truthy (get item ''doi'')" and "url_prefix_lower_case (get item ''doi'')"
  shows "''Invalid DOI syntax.'' \<in> set (doi_errors item) \<longleftrightarrow>
         \<not> DOI_REGEX_match (bare_doi_text (get item ''doi''))"
  using assms
  by (simp add: doi_errors_def Let_def py_or_def doi_syntax_is_valid_bare)

theorem validate_missing_title_iff_witness:
  "str_or_empty (get [(''title'', PStr []), (''year'', PInt 2020)] ''title'') \<and>
   \<not> truthy (get [(''title'', PStr []), (''year'', PInt 2020)] ''title'') \<and>
   (\<exists>errs suggs conf.
      validate [(''title'', PStr []), (''year'', PInt 2020)] None None = Inr (errs, suggs, conf) \<and>
      ''Missing required field: title'' \<in> set errs)"
proof -
  let ?i = "[(''title'', PStr []), (''year'', PInt 2020)]"
  have s: "str_or_empty (get ?i ''title'')" by (simp add: str_or_empty_def get_Cons)
  have t: "\<not> truthy (get ?i ''title'')" by (simp add: get_Cons)
  from validate_missing_title_iff [of ?i None None] s
  obtain errs suggs conf where r: "validate ?i None None = Inr (errs, suggs, conf)" by blast
  with validate_missing_title_iff [of ?i None None] t
  have "''Missing required field: title'' \<in> set errs" by blast
  with s t r show ?thesis by blast
qed

text \<open>
  C6, as stated, fails: a DOI given in its URL form does not match the pattern, and
  \<^verbatim>\<open>validate\<close> reports no error for it.
\<close>

theorem validate_url_form_doi_counterexample:
  "truthy (get [(''title'', PStr ''X''), (''year'', PInt 2020),
                (''doi'', PStr ''https://doi.org/10.1000/xyz123'')] ''doi'') \<and>
   \<not> DOI_REGEX_match ''https://doi.org/10.1000/xyz123'' \<and>
   map_sum id fst
     (validate [(''title'', PStr ''X''), (''year'', PInt 2020),
                (''doi'', PStr ''https://doi.org/10.1000/xyz123'')] None None) = Inr []"
  by code_simp

text \<open>
  C6, amended.  Take a record with a true value under \<^verbatim>\<open>doi\<close> whose trimmed text, when it
  starts with \<^verbatim>\<open>http://doi.org/\<close> or \<^verbatim>\<open>https://doi.org/\<close> in some case, is written with
  that prefix in lower case.  The error list that \<^verbatim>\<open>validate\<close> returns for it holds
  \<^verbatim>\<open>Invalid DOI syntax.\<close> exactly when the bare text of the DOI (the value as a string,
  trimmed, without a leading \<^verbatim>\<open>http://doi.org/\<close> or \<^verbatim>\<open>https://doi.org/\<close>) fails the pattern,
  matched without regard to case.  The DOI \<^verbatim>\<open>10.1000/xyz123\<close> passes the check and
  \<^verbatim>\<open>not-a-doi\<close> fails it.  Nothing is said of a prefix in another spelling.
\<close>

theorem validate_invalid_doi_iff:
  "(str_or_empty (get item ''title'') \<longrightarrow>
      (\<exists>errs suggs conf. validate item source_type style = Inr (errs, suggs, conf))) \<and>
   (\<forall>errs suggs conf.
      validate item source_type style = Inr (errs, suggs, conf) \<and> truthy (get item ''doi'') \<and>
      url_prefix_lower_case (get item ''doi'') \<longrightarrow>
      (''Invalid DOI syntax.'' \<in> set errs \<longleftrightarrow>
       \<not> DOI_REGEX_match (bare_doi_text (get item ''doi'')))) \<and>
   doi_syntax_is_valid ''10.1000/xyz123'' \<and> \<not> doi_syntax_is_valid ''not-a-doi'' \<and>
   DOI_REGEX_match (bare_doi_text (PStr ''10.1000/xyz123'')) \<and>
   \<not> DOI_REGEX_match (bare_doi_text (PStr ''not-a-doi''))"
proof (intro conjI impI allI)
  assume "str_or_empty (get item ''title'')"
  then show "\<exists>errs suggs conf. validate item source_type style = Inr (errs, suggs, conf)"
    by (rule validate_returns)
next
  fix errs suggs conf
  assume a: "validate item source_type style = Inr (errs, suggs, conf) \<and>
    truthy (get item ''doi'') \<and> url_prefix_lower_case (get item ''doi'')"
  then have "errs = missing_required item @ doi_errors item @ url_errors item @ year_errors item"
    using validate_errors by blast
  then show "''Invalid DOI syntax.'' \<in> set errs \<longleftrightarrow>
             \<not> DOI_REGEX_match (bare_doi_text (get item ''doi''))"
    using a doi_errors_iff [of item] missing_required_not_doi [of item]
      doi_not_in_url_errors [of item] doi_not_in_year_errors [of item]
    by simp
next
  show "doi_syntax_is_valid ''10.1000/xyz123''" by code_simp
  show "\<not> doi_syntax_is_valid ''not-a-doi''" by code_simp
  show "DOI_REGEX_match (bare_doi_text (PStr ''10.1000/xyz123''))" by code_simp
  show "\<not> DOI_REGEX_match (bare_doi_text (PStr ''not-a-doi''))" by code_simp
qed

theorem validate_invalid_doi_iff_witness:
  "truthy (get [(''title'', PStr ''X''), (''year'', PInt 2020), (''doi'', PStr ''not-a-doi'')]
             ''doi'') \<and>
   url_prefix_lower_case (PStr ''not-a-doi'') \<and>
   map_sum id fst
     (validate [(''title'', PStr ''X''), (''year'', PInt 2020), (''doi'', PStr ''not-a-doi'')]
        None None) = Inr [''Invalid DOI syntax.''] \<and>
   \<not> DOI_REGEX_match (bare_doi_text (PStr ''not-a-doi'')) \<and>
   truthy (get [(''title'', PStr ''X''), (''year'', PInt 2020),
                (''doi'', PStr '' https://doi.org/10.1000/XYZ123 '')] ''doi'') \<and>
   url_prefix_lower_case (PStr '' https://doi.org/10.1000/XYZ123 '') \<and>
   bare_doi_text (PStr '' https://doi.org/10.1000/XYZ123 '') = ''10.1000/XYZ123'' \<and>
   map_sum id fst
     (validate [(''title'', PStr ''X''), (''year'', PInt 2020),
                (''doi'', PStr '' https://doi.org/10.1000/XYZ123 '')] None None) = Inr [] \<and>
   DOI_REGEX_match (bare_doi_text (PStr '' https://doi.org/10.1000/XYZ123 ''))"
proof -
  let ?i = "[(''title'', PStr ''X''), (''year'', PInt 2020), (''doi'', PStr ''not-a-doi'')]"
  let ?j = "[(''title'', PStr ''X''), (''year'', PInt 2020),
             (''doi'', PStr '' https://doi.org/10.1000/XYZ123 '')]"
  have gi: "get ?i ''doi'' = PStr ''not-a-doi''" by (simp add: get_Cons)
  have gj: "get ?j ''doi'' = PStr '' https://doi.org/10.1000/XYZ123 ''" by (simp add: get_Cons)
  have si: "str_or_empty (get ?i ''title'')" by (simp add: str_or_empty_def get_Cons)
  have sj: "str_or_empty (get ?j ''title'')" by (simp add: str_or_empty_def get_Cons)
  have ui: "url_prefix_lower_case (PStr ''not-a-doi'')" by code_simp
  have uj: "url_prefix_lower_case (PStr '' https://doi.org/10.1000/XYZ123 '')" by code_simp
  have bj: "bare_doi_text (PStr '' https://doi.org/10.1000/XYZ123 '') = ''10.1000/XYZ123''"
    by code_simp
  have vi: "map_sum id fst (validate ?i None None) = Inr [''Invalid DOI syntax.'']" by code_simp
  have vj: "map_sum id fst (validate ?j None None) = Inr []" by code_simp
  from validate_invalid_doi_iff [of ?i None None] si
  obtain errs suggs conf where ri: "validate ?i None None = Inr (errs, suggs, conf)" by blast
  with vi have ei: "errs = [''Invalid DOI syntax.'']" by simp
  from validate_invalid_doi_iff [of ?i None None] ri gi ui
  have "''Invalid DOI syntax.'' \<in> set errs \<longleftrightarrow>
        \<not> DOI_REGEX_match (bare_doi_text (PStr ''not-a-doi''))" by simp
  with ei have ni: "\<not> DOI_REGEX_match (bare_doi_text (PStr ''not-a-doi''))" by simp
  from validate_invalid_doi_iff [of ?j None None] sj
  obtain errs' suggs' conf' where rj: "validate ?j None None = Inr (errs', suggs', conf')"
    by blast
  with vj have ej: "errs' = []" by simp
  from validate_invalid_doi_iff [of ?j None None] rj gj uj
  have "''Invalid DOI syntax.'' \<in> set errs' \<longleftrightarrow>
        \<not> DOI_REGEX_match (bare_doi_text (PStr '' https://doi.org/10.1000/XYZ123 ''))" by simp
  with ej have mj: "DOI_REGEX_match (bare_doi_text (PStr '' https://doi.org/10.1000/XYZ123 ''))"
    by simp
  from gi gj ui uj bj vi vj ni mj show ?thesis by simp
qed

section \<open>Properties: rendering\<close>

lemma manual_format_record_X: "manual_format record_X = Inr ''A B. 2020. X''"
  by code_simp

text \<open>
  C2, as stated, fails: without the CSL engine \<^verbatim>\<open>format_with_csl\<close> raises \<^verbatim>\<open>RuntimeError\<close>
  for the record of the claim and style APA; it does not fall back.
\<close>

theorem format_with_csl_engine_absent_counterexample:
  "\<not> CITEPROC_AVAILABLE engine_absent_env \<and>
   format_with_csl engine_absent_env ''APA'' record_X None True = Inl RuntimeError"
  by (simp add: format_with_csl_def engine_absent_env_def)

text \<open>
  C2, amended.  Without the CSL engine the single-item render raises \<^verbatim>\<open>RuntimeError\<close>, and
  with the engine but without the style file it raises \<^verbatim>\<open>FileNotFoundError\<close>.  When the
  engine is there, the style file exists and the rendering itself raises, the render
  falls back to the manual concatenation: for the record
  \<^verbatim>\<open>{title: "X", year: 2020, authors: ["A B"]}\<close> it returns \<^verbatim>\<open>A B. 2020. X\<close>, a non-empty
  string that contains \<^verbatim>\<open>2020\<close> and \<^verbatim>\<open>X\<close>.
\<close>

theorem format_with_csl_fallback:
  "(\<not> CITEPROC_AVAILABLE env \<longrightarrow>
      format_with_csl env style item source_type include_doi = Inl RuntimeError) \<and>
   (CITEPROC_AVAILABLE env \<and> \<not> style_file_exists env style \<longrightarrow>
      format_with_csl env style item source_type include_doi = Inl FileNotFoundError) \<and>
   (CITEPROC_AVAILABLE env \<and> style_file_exists env style \<and>
    csl_render env style record_X source_type include_doi = Inl e \<longrightarrow>
      format_with_csl env style record_X source_type include_doi = Inr ''A B. 2020. X'' \<and>
      ''A B. 2020. X'' \<noteq> [] \<and> contains ''2020'' ''A B. 2020. X'' \<and>
      contains ''X'' ''A B. 2020. X'')"
proof (intro conjI impI)
  assume "\<not> CITEPROC_AVAILABLE env"
  then show "format_with_csl env style item source_type include_doi = Inl RuntimeError"
    by (simp add: format_with_csl_def)
next
  assume "CITEPROC_AVAILABLE env \<and> \<not> style_file_exists env style"
  then show "format_with_csl env style item source_type include_doi = Inl FileNotFoundError"
    by (simp add: format_with_csl_def)
next
  assume "CITEPROC_AVAILABLE env \<and> style_file_exists env style \<and>
    csl_render env style record_X source_type include_doi = Inl e"
  then show "format_with_csl env style record_X source_type include_doi = Inr ''A B. 2020. X''"
    by (simp add: format_with_csl_def manual_format_record_X)
next
  show "''A B. 2020. X'' \<noteq> []" by simp
  show "contains ''2020'' ''A B. 2020. X''" by code_simp
  show "contains ''X'' ''A B. 2020. X''" by code_simp
qed

theorem format_with_csl_fallback_witness:
  "CITEPROC_AVAILABLE engine_failing_env \<and> style_file_exists engine_failing_env ''APA'' \<and>
   csl_render engine_failing_env ''APA'' record_X None True = Inl ValueError \<and>
   format_with_csl engine_failing_env ''APA'' record_X None True = Inr ''A B. 2020. X''"
proof -
  have h: "CITEPROC_AVAILABLE engine_failing_env \<and> style_file_exists engine_failing_env ''APA'' \<and>
     csl_render engine_failing_env ''APA'' record_X None True = Inl ValueError"
    by (simp add: engine_failing_env_def)
  with format_with_csl_fallback [of engine_failing_env "''APA''" record_X None True ValueError]
  show ?thesis by blast
qed


section \<open>Properties: saving to the store\<close>

lemma save_citation_appends:
  assumes "save_citation db item style formatted user_id = Inr db'"
  shows "length db' = Suc (length db) \<and> take (length db) db' = db"
  using assms unfolding save_citation_def
  by (cases "sql_text (get item ''doi'')"; cases "sql_text (get item ''title'')") auto

lemma save_to_ltm_empty:
  assumes "\<not> truthy (get item ''title'')" and "\<not> truthy (get item ''doi'')"
    and "\<not> truthy (get item ''url'')" and "\<not> truthy (get item ''raw_text'')"
  shows "save_to_ltm env db item style user_id force_save = Inr db"
  using assms by (simp add: save_to_ltm_def)

lemma save_to_ltm_duplicate:
  assumes "\<not> force_save"
    and "exists_duplicate db (py_or (get item ''doi'') PNone) (py_or (get item ''title'') PNone)
         = Inr True"
  shows "save_to_ltm env db item style user_id force_save = Inr db"
  using assms by (simp add: save_to_ltm_def)

lemma save_to_ltm_changed:
  assumes "save_to_ltm env db item style user_id force_save = Inr db'" and "db' \<noteq> db"
  shows "length db' = Suc (length db) \<and> take (length db) db' = db \<and>
         (truthy (get item ''title'') \<or> truthy (get item ''doi'') \<or>
          truthy (get item ''url'') \<or> truthy (get item ''raw_text'')) \<and>
         (force_save \<or>
          exists_duplicate db (py_or (get item ''doi'') PNone) (py_or (get item ''title'') PNone)
          \<noteq> Inr True)"
proof -
  let ?guard = "(truthy (get item ''title'') \<and> strip (py_str (get item ''title'')) \<noteq> []) \<or>
             truthy (get item ''doi'') \<or> truthy (get item ''url'') \<or>
             truthy (get item ''raw_text'')"
  let ?dup = "\<not> force_save \<and>
      exists_duplicate db (py_or (get item ''doi'') PNone) (py_or (get item ''title'') PNone)
      = Inr True"
  have g: ?guard
  proof (rule ccontr)
    assume "\<not> ?guard"
    then have "save_to_ltm env db item style user_id force_save = Inr db"
      by (simp add: save_to_ltm_def)
    with assms show False by simp
  qed
  have nd: "\<not> ?dup"
  proof
    assume ?dup
    then have "save_to_ltm env db item style user_id force_save = Inr db"
      by (simp add: save_to_ltm_duplicate)
    with assms show False by simp
  qed
  from g nd have "\<exists>sty fm. save_to_ltm env db item style user_id force_save
                    = save_citation db item sty fm user_id"
    unfolding save_to_ltm_def Let_def by auto
  then obtain sty fm where "save_citation db item sty fm user_id = Inr db'"
    using assms(1) by auto
  then have "length db' = Suc (length db) \<and> take (length db) db' = db"
    by (rule save_citation_appends)
  with g nd show ?thesis by blast
qed

text \<open>
  C9.  The first guard holds: a record without title, doi, url and raw_text is not saved
  (\<open>save_to_ltm_empty\<close>), and a changed store has exactly one more row
  (\<open>save_to_ltm_changed\<close>).  The duplicate guard does not do what the claim and the
  docstring of \<^verbatim>\<open>exists_duplicate\<close> say.  The record is trimmed and lower-cased by Python,
  the stored row by the SQL functions \<^verbatim>\<open>TRIM\<close> and \<^verbatim>\<open>LOWER\<close>, which remove spaces only and
  lower the letters A to Z only.  So a record whose title starts with an accented capital, or ends with a tab,
  already exists in the store after its first save and is saved a second time without
  \<^verbatim>\<open>force_save\<close>; a record whose texts differ from the stored ones by spaces and ASCII
  case only (the DOI \<^verbatim>\<open>10.1000/ABC\<close> with a space, the title \<^verbatim>\<open>X\<close>) is not.
\<close>

theorem save_to_ltm_saves_stored_title_again:
  "length (first_save engine_failing_env record_accent) = 1 \<and>
   already_stored (first_save engine_failing_env record_accent) record_accent \<and>
   map_sum id length
     (save_to_ltm engine_failing_env (first_save engine_failing_env record_accent)
        record_accent None None False) = Inr 2 \<and>
   length (first_save engine_failing_env record_tab) = 1 \<and>
   already_stored (first_save engine_failing_env record_tab) record_tab \<and>
   map_sum id length
     (save_to_ltm engine_failing_env (first_save engine_failing_env record_tab)
        record_tab None None False) = Inr 2 \<and>
   length (first_save engine_failing_env record_doi) = 1 \<and>
   already_stored (first_save engine_failing_env record_doi) record_doi \<and>
   map_sum id length
     (save_to_ltm engine_failing_env (first_save engine_failing_env record_doi)
        record_doi None None False) = Inr 1 \<and>
   length (first_save engine_failing_env record_X) = 1 \<and>
   already_stored (first_save engine_failing_env record_X) record_X \<and>
   map_sum id length
     (save_to_ltm engine_failing_env (first_save engine_failing_env record_X)
        record_X None None False) = Inr 1"
  by code_simp

end
